theory Spec2Isabelle
  imports Complex_Main
begin

section \<open>Values of the statement-import pipeline (src/pages/ImportPage.tsx)\<close>

text \<open>
  JavaScript numbers are modelled as \<^typ>\<open>real\<close>: arithmetic is exact, and the values
  \<open>NaN\<close> and \<open>Infinity\<close> do not occur (\<open>parseNumber\<close> only lets finite numbers through).
  An optional or nullable field is an \<^typ>\<open>'a option\<close>; the source only ever tests such
  fields for truthiness, \<open>=== undefined\<close> or \<open>typeof ... === 'number'\<close>, so
  \<open>undefined\<close> and \<open>null\<close> are both \<^const>\<open>None\<close>. Strings are \<^typ>\<open>string\<close>.
\<close>

type_synonym number = real

subsection \<open>String helpers\<close>

text \<open>
  A \<^typ>\<open>char\<close> is a code unit between 0 and 255, read as the character with that code
  point. \<open>String.prototype.toLowerCase\<close> maps each capital among these to its small
  letter: A to Z, and the capitals from \<open>U+00C0\<close> to \<open>U+00DE\<close> (without the
  multiplication sign \<open>U+00D7\<close>), whose small letters are 32 code points further on.
  Every other character of the range is mapped to itself.
\<close>

definition upperChars :: "char list" where
  "upperChars =
     ''ABCDEFGHIJKLMNOPQRSTUVWXYZ'' @
     [CHR 0xC0, CHR 0xC1, CHR 0xC2, CHR 0xC3, CHR 0xC4, CHR 0xC5, CHR 0xC6, CHR 0xC7,
     CHR 0xC8, CHR 0xC9, CHR 0xCA, CHR 0xCB, CHR 0xCC, CHR 0xCD, CHR 0xCE, CHR 0xCF,
     CHR 0xD0, CHR 0xD1, CHR 0xD2, CHR 0xD3, CHR 0xD4, CHR 0xD5, CHR 0xD6, CHR 0xD8,
     CHR 0xD9, CHR 0xDA, CHR 0xDB, CHR 0xDC, CHR 0xDD, CHR 0xDE]"

definition lowerChars :: "char list" where
  "lowerChars =
     ''abcdefghijklmnopqrstuvwxyz'' @
     [CHR 0xE0, CHR 0xE1, CHR 0xE2, CHR 0xE3, CHR 0xE4, CHR 0xE5, CHR 0xE6, CHR 0xE7,
     CHR 0xE8, CHR 0xE9, CHR 0xEA, CHR 0xEB, CHR 0xEC, CHR 0xED, CHR 0xEE, CHR 0xEF,
     CHR 0xF0, CHR 0xF1, CHR 0xF2, CHR 0xF3, CHR 0xF4, CHR 0xF5, CHR 0xF6, CHR 0xF8,
     CHR 0xF9, CHR 0xFA, CHR 0xFB, CHR 0xFC, CHR 0xFD, CHR 0xFE]"

definition lowerChar :: "char \<Rightarrow> char" where
  "lowerChar c =
     (case map_of (zip upperChars lowerChars) c of
        Some l \<Rightarrow> l
      | None \<Rightarrow> c)"

text \<open>\<open>String.prototype.toLowerCase\<close>\<close>

definition toLowerCase :: "string \<Rightarrow> string" where
  "toLowerCase s = map lowerChar s"

definition isSpace :: "char \<Rightarrow> bool" where
  "isSpace c = (of_char c \<in> {9, 10, 11, 12, 13, 32, 160 :: nat})"

text \<open>\<open>String.prototype.trim\<close>: white space is removed at both ends.\<close>

definition trim :: "string \<Rightarrow> string" where
  "trim s = rev (dropWhile isSpace (rev (dropWhile isSpace s)))"

fun startsWith :: "string \<Rightarrow> string \<Rightarrow> bool" where
  "startsWith s [] = True"
| "startsWith [] (p # ps) = False"
| "startsWith (c # cs) (p # ps) = (c = p \<and> startsWith cs ps)"

text \<open>\<open>String.prototype.includes\<close>: the needle occurs somewhere in the string.\<close>

fun includesStr :: "string \<Rightarrow> string \<Rightarrow> bool" where
  "includesStr [] p = (p = [])"
| "includesStr (c # cs) p = (startsWith (c # cs) p \<or> includesStr cs p)"

definition endsWith :: "string \<Rightarrow> string \<Rightarrow> bool" where
  "endsWith s p = startsWith (rev s) (rev p)"

fun splitOn :: "char \<Rightarrow> string \<Rightarrow> string list" where
  "splitOn sep [] = [[]]"
| "splitOn sep (c # cs) =
     (if c = sep then [] # splitOn sep cs
      else (case splitOn sep cs of [] \<Rightarrow> [[c]] | seg # segs \<Rightarrow> (c # seg) # segs))"

text \<open>\<open>Array.prototype.join\<close>\<close>

fun join :: "string \<Rightarrow> string list \<Rightarrow> string" where
  "join sep [] = []"
| "join sep [x] = x"
| "join sep (x # y # ys) = x @ sep @ join sep (y # ys)"

subsection \<open>Trades, row metadata and lots\<close>

text \<open>\<open>Partial<Trade>\<close>: every field of \<open>Trade\<close> (data/mockData.ts) is optional.\<close>

record Trade =
  entry_ts :: "string option"
  date :: "string option"
  time :: "string option"
  side :: "string option"
  type :: "string option"
  ticker :: "string option"
  qty :: "number option"
  pnl :: "number option"
  change :: "string option"
  source_account :: "string option"
  source_broker :: "string option"

text \<open>The \<open>meta\<close> part of \<open>ParsedCsvRow\<close>.\<close>

record RowMeta =
  m_side :: string
  m_qty :: "number option"
  fillPrice :: "number option"
  m_feePerUnit :: number
  totalFee :: number
  pointValue :: number

record ParsedCsvRow =
  trade :: Trade
  meta :: RowMeta

record Lot =
  l_qty :: number
  price :: number
  feePerUnit :: number
  multiplier :: number

section \<open>FIFO reconciliation\<close>

subsection \<open>closeLots\<close>

text \<open>
  The \<open>while\<close> loop of \<open>closeLots\<close>, with the local variables \<open>realized\<close> and
  \<open>remaining\<close> as arguments. The source mutates the array \<open>lots\<close> and its head lot in
  place; the model returns the array the caller sees afterwards as third component.
\<close>

function closeLotsLoop ::
  "Lot list \<Rightarrow> number \<Rightarrow> bool \<Rightarrow> number \<Rightarrow> number \<Rightarrow> number \<times> number \<times> Lot list" where
  "closeLotsLoop [] exitPrice closingLong realized remaining = (realized, remaining, [])"
| "closeLotsLoop (lot # rest) exitPrice closingLong realized remaining =
     (if remaining > 0 then
        let matched = min remaining (l_qty lot);
            priceDelta = (if closingLong then exitPrice - price lot else price lot - exitPrice);
            realized' = realized
              + (priceDelta * matched * (if multiplier lot = 0 then 1 else multiplier lot)
                 - feePerUnit lot * matched);
            lot' = lot\<lparr>l_qty := l_qty lot - matched\<rparr>;
            lots' = (if l_qty lot' \<le> 1 / 100000000 then rest else lot' # rest)
        in closeLotsLoop lots' exitPrice closingLong realized' (remaining - matched)
      else (realized, remaining, lot # rest))"
  by pat_completeness auto
termination
  by (relation "measure (\<lambda>(lots, _, _, _, remaining).
        2 * length lots + (if remaining > 0 then 1 else 0))")
     (auto simp: min_def split: if_splits)

definition closeLots :: "Lot list \<Rightarrow> number \<Rightarrow> number \<Rightarrow> bool \<Rightarrow> number \<times> number \<times> Lot list" where
  "closeLots lots q exitPrice closingLong = closeLotsLoop lots exitPrice closingLong 0 q"

subsection \<open>The per-row body of deriveFifoPnl\<close>

type_synonym lotMap = "string \<rightharpoonup> Lot list"

text \<open>\<open>map.get(ticker) ?? []\<close>\<close>

definition getLots :: "lotMap \<Rightarrow> string \<Rightarrow> Lot list" where
  "getLots m tk = (case m tk of None \<Rightarrow> [] | Some lots \<Rightarrow> lots)"

definition setPnl :: "ParsedCsvRow \<Rightarrow> number \<Rightarrow> ParsedCsvRow" where
  "setPnl row v = row\<lparr>trade := (trade row)\<lparr>pnl := Some v\<rparr>\<rparr>"

text \<open>\<open>if (row.trade.pnl === undefined) row.trade.pnl = 0\<close>\<close>

definition defaultPnl :: "ParsedCsvRow \<Rightarrow> ParsedCsvRow" where
  "defaultPnl row = (if pnl (trade row) = None then setPnl row 0 else row)"

text \<open>
  The part of the \<open>forEach\<close> callback after the guard on missing data: \<open>tk\<close>, \<open>q\<close>
  and \<open>p\<close> are the row's ticker (not empty), quantity (not zero) and fill price. The two
  maps are passed in and returned.
\<close>

definition fillRow ::
  "ParsedCsvRow \<Rightarrow> string \<Rightarrow> number \<Rightarrow> number \<Rightarrow> lotMap \<Rightarrow> lotMap
     \<Rightarrow> ParsedCsvRow \<times> lotMap \<times> lotMap" where
  "fillRow row tk q p longLots shortLots =
     (let totalFee = totalFee (meta row);
          qtyTotal = q;
          feePerUnit = (if qtyTotal \<noteq> 0 then totalFee / qtyTotal else m_feePerUnit (meta row));
          pointValue = (if pointValue (meta row) = 0 then 1 else pointValue (meta row));
          normalizedSide = toLowerCase (m_side (meta row));
          (realized, closedQty, longLots', shortLots') =
            (if normalizedSide = ''long'' \<or> normalizedSide = ''buy'' then
               let shortQueue = getLots shortLots tk;
                   (realizedClose, remaining, shortQueue') = closeLots shortQueue q p False;
                   longLots' = (if remaining > 0
                     then longLots(tk \<mapsto> getLots longLots tk @
                            [\<lparr>l_qty = remaining, price = p, feePerUnit = feePerUnit,
                              multiplier = pointValue\<rparr>])
                     else longLots);
                   shortLots' = (if shortQueue' \<noteq> []
                     then shortLots(tk \<mapsto> filter (\<lambda>lot. l_qty lot > 0) shortQueue')
                     else shortLots(tk := None))
               in (0 + realizedClose, q - remaining, longLots', shortLots')
             else if normalizedSide = ''short'' \<or> normalizedSide = ''sell'' then
               let longQueue = getLots longLots tk;
                   (realizedClose, remaining, longQueue') = closeLots longQueue q p True;
                   shortLots' = (if remaining > 0
                     then shortLots(tk \<mapsto> getLots shortLots tk @
                            [\<lparr>l_qty = remaining, price = p, feePerUnit = feePerUnit,
                              multiplier = pointValue\<rparr>])
                     else shortLots);
                   longLots' = (if longQueue' \<noteq> []
                     then longLots(tk \<mapsto> filter (\<lambda>lot. l_qty lot > 0) longQueue')
                     else longLots(tk := None))
               in (0 + realizedClose, q - remaining, longLots', shortLots')
             else (0, 0, longLots, shortLots))
      in if closedQty > 0 then
           let feeShare = (if qtyTotal \<noteq> 0 then totalFee * (closedQty / qtyTotal) else totalFee)
           in (setPnl row (realized - feeShare), longLots', shortLots')
         else (defaultPnl row, longLots', shortLots'))"

text \<open>The whole \<open>forEach\<close> callback for one row.\<close>

definition fifoRow ::
  "ParsedCsvRow \<Rightarrow> lotMap \<Rightarrow> lotMap \<Rightarrow> ParsedCsvRow \<times> lotMap \<times> lotMap" where
  "fifoRow row longLots shortLots =
     (case pnl (trade row) of
        Some v \<Rightarrow> (row, longLots, shortLots)
      | None \<Rightarrow>
          (case (ticker (trade row), m_qty (meta row), fillPrice (meta row)) of
             (Some tk, Some q, Some p) \<Rightarrow>
               if tk = [] \<or> q = 0 then (defaultPnl row, longLots, shortLots)
               else fillRow row tk q p longLots shortLots
           | _ \<Rightarrow> (defaultPnl row, longLots, shortLots)))"

subsection \<open>getTradeTimestamp and deriveFifoPnl\<close>

text \<open>
  \<open>new Date(s).getTime()\<close> belongs to the platform: it is the parameter \<open>dateParse\<close>,
  the epoch milliseconds of a string, \<^const>\<open>None\<close> where the source gets \<open>NaN\<close>.
\<close>

definition getTradeTimestamp :: "(string \<Rightarrow> int option) \<Rightarrow> Trade \<Rightarrow> int" where
  "getTradeTimestamp dateParse t =
     (let fromDate =
        (case date t of
           Some d \<Rightarrow>
             if d = [] then 0
             else
               let timePart = (case time t of None \<Rightarrow> ''00:00'' | Some tm \<Rightarrow> tm);
                   normalized = (if length timePart = 5 then timePart @ '':00'' else timePart);
                   isoText = d @ ''T'' @ normalized
               in (case dateParse (if endsWith isoText ''Z'' then isoText else isoText @ ''Z'') of
                     Some ts \<Rightarrow> ts | None \<Rightarrow> 0)
         | None \<Rightarrow> 0)
      in case entry_ts t of
           Some e \<Rightarrow>
             if e = [] then fromDate
             else (case dateParse e of Some ts \<Rightarrow> ts | None \<Rightarrow> fromDate)
         | None \<Rightarrow> fromDate)"

text \<open>
  The rows are objects shared between \<open>rows\<close> and its sorted copy \<open>ordered\<close>: the
  model keeps them in the list \<open>rows\<close> and lets \<open>ordered\<close> hold their positions.
  \<open>Array.prototype.sort\<close> is stable, as \<^const>\<open>sort_key\<close> is. The state of the run is
  the rows together with the two maps \<open>longLots\<close> and \<open>shortLots\<close>.
\<close>

type_synonym fifoState = "ParsedCsvRow list \<times> lotMap \<times> lotMap"

definition fifoStep :: "nat \<Rightarrow> fifoState \<Rightarrow> fifoState" where
  "fifoStep i st =
     (case st of (rows, longLots, shortLots) \<Rightarrow>
        (case fifoRow (rows ! i) longLots shortLots of
           (row', longLots', shortLots') \<Rightarrow> (rows[i := row'], longLots', shortLots')))"

definition ordered :: "(string \<Rightarrow> int option) \<Rightarrow> ParsedCsvRow list \<Rightarrow> nat list" where
  "ordered dateParse rows =
     sort_key (\<lambda>i. getTradeTimestamp dateParse (trade (rows ! i))) [0..<length rows]"

definition runFifo :: "(string \<Rightarrow> int option) \<Rightarrow> ParsedCsvRow list \<Rightarrow> fifoState" where
  "runFifo dateParse rows =
     fold fifoStep (ordered dateParse rows) (rows, Map.empty, Map.empty)"

definition deriveFifoPnl :: "(string \<Rightarrow> int option) \<Rightarrow> ParsedCsvRow list \<Rightarrow> ParsedCsvRow list" where
  "deriveFifoPnl dateParse rows = fst (runFifo dateParse rows)"

section \<open>Field resolution\<close>

text \<open>
  \<open>ColumnMatcher = string | RegExp | ((key: string) => boolean)\<close>. A regular expression
  is given by its \<open>test\<close> function. A record is the list of its own properties in the
  order of \<open>Object.keys\<close>.
\<close>

datatype ColumnMatcher =
    Exact string
  | Pattern "string \<Rightarrow> bool"
  | Predicate "string \<Rightarrow> bool"

type_synonym csvRecord = "(string \<times> string) list"

fun matcherPredicate :: "ColumnMatcher \<Rightarrow> string \<Rightarrow> bool" where
  "matcherPredicate (Exact name) key = (key = name)"
| "matcherPredicate (Pattern test) key = test key"
| "matcherPredicate (Predicate f) key = f key"

text \<open>
  One round of the loop of \<open>findColumnValue\<close>: the value the matcher yields, if any.
  \<open>keys.find\<close> gives the first key that satisfies the matcher; the conditional
  \<open>foundKey ? record[foundKey] : undefined\<close> and the test \<open>raw && raw.trim()\<close> read an
  empty string as false.
\<close>

definition matcherValue :: "csvRecord \<Rightarrow> ColumnMatcher \<Rightarrow> string option" where
  "matcherValue rec matcher =
     (let foundKey = List.find (matcherPredicate matcher) (map fst rec);
          raw = (case foundKey of
                   Some k \<Rightarrow> if k \<noteq> [] then map_of rec k else None
                 | None \<Rightarrow> None)
      in case raw of
           Some r \<Rightarrow> if r \<noteq> [] \<and> trim r \<noteq> [] then Some (trim r) else None
         | None \<Rightarrow> None)"

fun findColumnValue :: "csvRecord \<Rightarrow> ColumnMatcher list \<Rightarrow> string option" where
  "findColumnValue rec [] = None"
| "findColumnValue rec (matcher # matchers) =
     (case matcherValue rec matcher of
        Some v \<Rightarrow> Some v
      | None \<Rightarrow> findColumnValue rec matchers)"

text \<open>
  The predicate \<open>/(^|_)(qty|quantity|contracts?|shares?)($|_)/.test(key)\<close>: none of the
  words contains an underscore, so the expression matches exactly when one of the pieces
  of the key between underscores is one of the words.
\<close>

definition qtyToken :: "string \<Rightarrow> bool" where
  "qtyToken key =
     (\<exists>seg \<in> set (splitOn CHR ''_'' key).
        seg \<in> {''qty'', ''quantity'', ''contract'', ''contracts'', ''share'', ''shares''})"

definition quantityMatchers :: "ColumnMatcher list" where
  "quantityMatchers =
     [Exact ''qty'', Exact ''quantity'', Exact ''contracts'', Exact ''shares'', Exact ''size'',
      Exact ''filledqty'', Exact ''filled_qty'', Predicate qtyToken]"

section \<open>The import: date cutoff, fee override, deduplication\<close>

text \<open>
  What \<open>handleImport\<close> takes from the platform: \<open>new Date(s).getTime()\<close>
  (\<^const>\<open>None\<close> for an invalid date), \<open>Date.prototype.toISOString\<close> of a valid
  instant, and \<open>Number.prototype.toFixed(4)\<close>.
\<close>

record Platform =
  dateParse :: "string \<Rightarrow> int option"
  toISOString :: "int \<Rightarrow> string"
  toFixed4 :: "number \<Rightarrow> string"

datatype error = RangeError

subsection \<open>Date cutoff\<close>

text \<open>
  \<open>importStartDate\<close> is the text of the date input, empty when no cutoff is given. A
  comparison with an invalid \<open>earliest\<close> date is false.
\<close>

definition keepByDate :: "Platform \<Rightarrow> int option \<Rightarrow> Trade \<Rightarrow> bool" where
  "keepByDate pf earliest r =
     (case entry_ts r of
        None \<Rightarrow> True
      | Some e \<Rightarrow>
          if e = [] then True
          else (case dateParse pf e of
                  None \<Rightarrow> True
                | Some ts \<Rightarrow> (case earliest of Some c \<Rightarrow> ts \<ge> c | None \<Rightarrow> False)))"

definition filterByDate :: "Platform \<Rightarrow> string \<Rightarrow> Trade list \<Rightarrow> Trade list" where
  "filterByDate pf importStartDate parsed =
     (if importStartDate = [] then parsed
      else filter (keepByDate pf (dateParse pf importStartDate)) parsed)"

subsection \<open>The payload of a row\<close>

record Payload =
  p_user_id :: string
  p_entry_ts :: "string option"
  p_side :: "string option"
  p_ticker :: "string option"
  p_type :: "string option"
  p_qty :: "number option"
  p_pnl :: "number option"
  p_change :: "string option"
  p_source_account :: string
  p_source_broker :: string

text \<open>\<open>value || null\<close> on an optional string\<close>

definition orNull :: "string option \<Rightarrow> string option" where
  "orNull v = (case v of None \<Rightarrow> None | Some s \<Rightarrow> if s = [] then None else Some s)"

text \<open>
  The first half of the \<open>map\<close> callback of \<open>handleImport\<close>: the fee override and the
  payload. \<open>feeValue\<close> is \<open>Number(extraFees) || 0\<close>.
\<close>

definition buildPayload :: "string \<Rightarrow> string \<Rightarrow> string \<Rightarrow> number \<Rightarrow> Trade \<Rightarrow> Payload" where
  "buildPayload userId trimmedAccount selectedBroker feeValue r =
     (let qtyValue = qty r;
          pnlValue = pnl r;
          isFuture = includesStr (toLowerCase (case type r of None \<Rightarrow> [] | Some t \<Rightarrow> t)) ''future'';
          feeAdjustment = (case qtyValue of
                             Some q \<Rightarrow> if feeValue \<noteq> 0 \<and> q \<noteq> 0 then feeValue * \<bar>q\<bar> else 0
                           | None \<Rightarrow> 0);
          adjustedPnl = (case pnlValue of
                           Some v \<Rightarrow> if isFuture \<and> feeAdjustment \<noteq> 0 then Some (v - feeAdjustment)
                                     else Some v
                         | None \<Rightarrow> None)
      in \<lparr>p_user_id = userId,
          p_entry_ts = orNull (entry_ts r),
          p_side = orNull (side r),
          p_ticker = orNull (ticker r),
          p_type = orNull (type r),
          p_qty = qtyValue,
          p_pnl = adjustedPnl,
          p_change = change r,
          p_source_account = trimmedAccount,
          p_source_broker = selectedBroker\<rparr>)"

text \<open>
  The payload as the object that is sent to the storage insert: the properties of the
  object literal, in its order, with their values.
\<close>

datatype JsValue = JsNull | JsString string | JsNumber number

definition jsStringOrNull :: "string option \<Rightarrow> JsValue" where
  "jsStringOrNull v = (case v of None \<Rightarrow> JsNull | Some s \<Rightarrow> JsString s)"

definition jsNumberOrNull :: "number option \<Rightarrow> JsValue" where
  "jsNumberOrNull v = (case v of None \<Rightarrow> JsNull | Some n \<Rightarrow> JsNumber n)"

definition payloadObject :: "Payload \<Rightarrow> (string \<times> JsValue) list" where
  "payloadObject p =
     [(''user_id'', JsString (p_user_id p)),
      (''entry_ts'', jsStringOrNull (p_entry_ts p)),
      (''side'', jsStringOrNull (p_side p)),
      (''ticker'', jsStringOrNull (p_ticker p)),
      (''type'', jsStringOrNull (p_type p)),
      (''qty'', jsNumberOrNull (p_qty p)),
      (''pnl'', jsNumberOrNull (p_pnl p)),
      (''change'', jsStringOrNull (p_change p)),
      (''source_account'', JsString (p_source_account p)),
      (''source_broker'', JsString (p_source_broker p))]"

subsection \<open>buildTradeKey\<close>

text \<open>The argument of \<open>buildTradeKey\<close>: the seven fields it reads.\<close>

record TradeKeyArg =
  k_entry_ts :: "string option"
  k_ticker :: "string option"
  k_side :: "string option"
  k_type :: "string option"
  k_qty :: "number option"
  k_pnl :: "number option"
  k_change :: "string option"

definition payloadKeyArg :: "Payload \<Rightarrow> TradeKeyArg" where
  "payloadKeyArg p =
     \<lparr>k_entry_ts = p_entry_ts p, k_ticker = p_ticker p, k_side = p_side p, k_type = p_type p,
      k_qty = p_qty p, k_pnl = p_pnl p, k_change = p_change p\<rparr>"

definition normalizeString :: "string option \<Rightarrow> string" where
  "normalizeString v = (case v of None \<Rightarrow> [] | Some s \<Rightarrow> toLowerCase s)"

definition normalizeNumber :: "Platform \<Rightarrow> number option \<Rightarrow> string" where
  "normalizeNumber pf v = (case v of None \<Rightarrow> [] | Some n \<Rightarrow> toFixed4 pf n)"

text \<open>\<open>toISOString\<close> of an invalid date throws a \<open>RangeError\<close>.\<close>

definition buildTradeKey :: "Platform \<Rightarrow> TradeKeyArg \<Rightarrow> error + string" where
  "buildTradeKey pf t =
     (case (case k_entry_ts t of
              None \<Rightarrow> Inr []
            | Some e \<Rightarrow>
                if e = [] then Inr []
                else (case dateParse pf e of
                        None \<Rightarrow> Inl RangeError
                      | Some ms \<Rightarrow> Inr (toISOString pf ms))) of
        Inl err \<Rightarrow> Inl err
      | Inr isoText \<Rightarrow>
          Inr (join ''|''
            [normalizeString (Some isoText),
             normalizeString (k_ticker t),
             normalizeString (k_side t),
             normalizeString (k_type t),
             normalizeNumber pf (k_qty t),
             normalizeNumber pf (k_pnl t),
             normalizeString (k_change t)]))"

subsection \<open>The dedup gate\<close>

text \<open>\<open>existingKeys\<close>: the keys of the trades the storage query returned.\<close>

fun existingKeysOf :: "Platform \<Rightarrow> TradeKeyArg list \<Rightarrow> error + string set" where
  "existingKeysOf pf [] = Inr {}"
| "existingKeysOf pf (t # ts) =
     (case buildTradeKey pf t of
        Inl err \<Rightarrow> Inl err
      | Inr key \<Rightarrow>
          (case existingKeysOf pf ts of
             Inl err \<Rightarrow> Inl err
           | Inr keys \<Rightarrow> Inr (insert key keys)))"

text \<open>
  The \<open>map\<close> over \<open>filteredRows\<close> with the following \<open>filter\<close>: the rows are taken
  from left to right, the set \<open>existingKeys\<close> grows on the way, and a row that is mapped
  to \<open>null\<close> is left out. The result is the rows to insert and the final key set.
\<close>

fun dedupRows ::
  "Platform \<Rightarrow> (Trade \<Rightarrow> Payload) \<Rightarrow> string set \<Rightarrow> Trade list \<Rightarrow> error + (Payload list \<times> string set)" where
  "dedupRows pf mk existingKeys [] = Inr ([], existingKeys)"
| "dedupRows pf mk existingKeys (r # rs) =
     (let payload = mk r in
      case buildTradeKey pf (payloadKeyArg payload) of
        Inl err \<Rightarrow> Inl err
      | Inr key \<Rightarrow>
          if key \<in> existingKeys then dedupRows pf mk existingKeys rs
          else (case dedupRows pf mk (insert key existingKeys) rs of
                  Inl err \<Rightarrow> Inl err
                | Inr (rows, keys) \<Rightarrow> Inr (payload # rows, keys)))"

subsection \<open>handleImport, from the parsed rows on\<close>

text \<open>
  The outcomes of \<open>handleImport\<close> once the statement is parsed and the storage query has
  returned \<open>existingTrades\<close>: the three status messages without an insert, the insert of the
  surviving rows, and the \<open>catch\<close> branch.
\<close>

datatype outcome =
    NoRowsFound
  | NoRowsMatchFilters
  | AllTradesExist
  | InsertRows "Payload list"
  | ImportFailed error

definition handleImport ::
  "Platform \<Rightarrow> string \<Rightarrow> string \<Rightarrow> string \<Rightarrow> number \<Rightarrow> string
     \<Rightarrow> TradeKeyArg list \<Rightarrow> Trade list \<Rightarrow> outcome" where
  "handleImport pf userId trimmedAccount selectedBroker feeValue importStartDate
       existingTrades parsed =
     (if parsed = [] then NoRowsFound
      else
        let filteredRows = filterByDate pf importStartDate parsed in
        if filteredRows = [] then NoRowsMatchFilters
        else (case existingKeysOf pf existingTrades of
                Inl err \<Rightarrow> ImportFailed err
              | Inr existingKeys \<Rightarrow>
                  (case dedupRows pf (buildPayload userId trimmedAccount selectedBroker feeValue)
                          existingKeys filteredRows of
                     Inl err \<Rightarrow> ImportFailed err
                   | Inr (rows, keys) \<Rightarrow>
                       if rows = [] then AllTradesExist else InsertRows rows)))"

section \<open>Closed forms of FIFO matching\<close>

text \<open>\<open>lot.multiplier || 1\<close>\<close>

definition lotMultiplier :: "Lot \<Rightarrow> number" where
  "lotMultiplier lot = (if multiplier lot = 0 then 1 else multiplier lot)"

text \<open>
  The profit per matched unit of a lot that is closed at \<open>exitPrice\<close>, as \<open>closeLots\<close>
  computes it.
\<close>

definition unitPnl :: "bool \<Rightarrow> number \<Rightarrow> Lot \<Rightarrow> number" where
  "unitPnl closingLong exitPrice lot =
     (if closingLong then exitPrice - price lot else price lot - exitPrice) * lotMultiplier lot
       - feePerUnit lot"

text \<open>
  Oldest lot first: of a fill of quantity \<open>q\<close>, the lot at position \<open>k\<close> of the queue is
  matched with what the lots before it leave over, up to its own quantity.
\<close>

definition matchedQty :: "Lot list \<Rightarrow> number \<Rightarrow> nat \<Rightarrow> number" where
  "matchedQty lots q k =
     min (l_qty (lots ! k)) (max 0 (q - sum_list (map l_qty (take k lots))))"

text \<open>
  The queue after the fill: every lot less its matched quantity, without the lots that
  were matched and are left with at most \<open>1e-8\<close>.
\<close>

definition residualLots :: "Lot list \<Rightarrow> number \<Rightarrow> Lot list" where
  "residualLots lots q =
     map (\<lambda>k. (lots ! k)\<lparr>l_qty := l_qty (lots ! k) - matchedQty lots q k\<rparr>)
       (filter (\<lambda>k. matchedQty lots q k = 0 \<or>
                     l_qty (lots ! k) - matchedQty lots q k > 1 / 100000000)
          [0..<length lots])"

text \<open>All lots of all queues have a positive quantity.\<close>

definition lotsPositive :: "lotMap \<Rightarrow> bool" where
  "lotsPositive m = (\<forall>tk lots. m tk = Some lots \<longrightarrow> (\<forall>lot \<in> set lots. 0 < l_qty lot))"

section \<open>Sample inputs\<close>

text \<open>A platform that knows three instants, and rows of a small statement.\<close>

definition samplePlatform :: Platform where
  "samplePlatform =
     \<lparr>dateParse = (\<lambda>s.
        if s = ''2024-01-01T10:00:00.000Z'' then Some 1704103200000
        else if s = ''2024-01-02'' then Some 1704153600000
        else if s = ''2024-01-03T10:00:00.000Z'' then Some 1704276000000
        else None),
      toISOString = (\<lambda>ms.
        if ms = 1704103200000 then ''2024-01-01T10:00:00.000Z''
        else if ms = 1704153600000 then ''2024-01-02T00:00:00.000Z''
        else if ms = 1704276000000 then ''2024-01-03T10:00:00.000Z''
        else ''other''),
      toFixed4 = (\<lambda>n.
        if n = 0 then ''0.0000''
        else if n = 2 then ''2.0000''
        else if n = 193 then ''193.0000''
        else if n = 196 then ''196.0000''
        else ''other'')\<rparr>"

definition sampleTrade :: "string option \<Rightarrow> string \<Rightarrow> number option \<Rightarrow> number option \<Rightarrow> Trade" where
  "sampleTrade ts sd q v =
     \<lparr>entry_ts = ts, date = Some [], time = Some [], side = Some sd, type = Some ''Futures'',
      ticker = Some ''NQ'', qty = q, pnl = v, change = Some [],
      source_account = None, source_broker = None\<rparr>"

definition sampleRow :: "string option \<Rightarrow> string \<Rightarrow> number \<Rightarrow> number option \<Rightarrow> number \<Rightarrow> ParsedCsvRow" where
  "sampleRow ts sd q p fee =
     \<lparr>trade = sampleTrade ts sd (Some q) None,
      meta = \<lparr>m_side = sd, m_qty = Some q, fillPrice = p, m_feePerUnit = fee / q,
               totalFee = fee, pointValue = 20\<rparr>\<rparr>"

text \<open>
  The example of the specification, a buy of 2 NQ at 100 and a sell of 2 at 105, each with
  a commission of 2, and a third row without a fill price.
\<close>

definition sampleRows :: "ParsedCsvRow list" where
  "sampleRows =
     [sampleRow (Some ''2024-01-01T10:00:00.000Z'') ''Long'' 2 (Some 100) 2,
      sampleRow (Some ''2024-01-03T10:00:00.000Z'') ''Short'' 2 (Some 105) 2,
      sampleRow None ''Short'' 2 None 0]"

text \<open>
  Two buys of 1 NQ, at 50 and at 100, and a sell of 1 at 105, without commission and
  without timestamps.
\<close>

definition sampleOlderLot :: "ParsedCsvRow list" where
  "sampleOlderLot =
     [sampleRow None ''Long'' 1 (Some 50) 0,
      sampleRow None ''Long'' 1 (Some 100) 0,
      sampleRow None ''Short'' 1 (Some 105) 0]"

text \<open>A Short queue with two lots of NQ, sold at 110 and at 120.\<close>

definition sampleShortLots :: lotMap where
  "sampleShortLots =
     [''NQ'' \<mapsto> [\<lparr>l_qty = 1, price = 110, feePerUnit = 1 / 2, multiplier = 20\<rparr>,
                  \<lparr>l_qty = 2, price = 120, feePerUnit = 1, multiplier = 20\<rparr>]]"

text \<open>A Long queue with the lot that the first row of \<open>sampleRows\<close> opens.\<close>

definition sampleLongLots :: lotMap where
  "sampleLongLots = [''NQ'' \<mapsto> [\<lparr>l_qty = 2, price = 100, feePerUnit = 1, multiplier = 20\<rparr>]]"

section \<open>Properties\<close>

subsection \<open>Date cutoff\<close>

text \<open>
  Claim C7. When a cutoff date is given (the text of the date input is not empty and is a
  valid date), the rows that are dropped are exactly those whose timestamp is present and
  parses to an instant before the cutoff. All other rows are kept, in their order: those at
  or after the cutoff, those without a timestamp and those whose timestamp does not parse.
\<close>

theorem filterByDate_cutoff:
  assumes "importStartDate \<noteq> []" and "dateParse pf importStartDate = Some cutoff"
  shows "filterByDate pf importStartDate parsed =
     filter (\<lambda>r. \<not> (\<exists>e ts. entry_ts r = Some e \<and> e \<noteq> [] \<and>
                          dateParse pf e = Some ts \<and> ts < cutoff)) parsed"
proof -
  have "keepByDate pf (Some cutoff) =
      (\<lambda>r. \<not> (\<exists>e ts. entry_ts r = Some e \<and> e \<noteq> [] \<and>
                      dateParse pf e = Some ts \<and> ts < cutoff))"
    by (rule ext) (auto simp: keepByDate_def split: option.splits)
  then show ?thesis using assms by (simp add: filterByDate_def)
qed

theorem filterByDate_cutoff_witness:
  "''2024-01-02'' \<noteq> [] \<and> dateParse samplePlatform ''2024-01-02'' = Some 1704153600000 \<and>
   filterByDate samplePlatform ''2024-01-02''
     [sampleTrade (Some ''2024-01-01T10:00:00.000Z'') ''Long'' (Some 2) (Some 0),
      sampleTrade (Some ''2024-01-03T10:00:00.000Z'') ''Short'' (Some 2) (Some 196),
      sampleTrade None ''Short'' (Some 2) (Some 0),
      sampleTrade (Some ''yesterday'') ''Short'' (Some 2) (Some 0)] =
     [sampleTrade (Some ''2024-01-03T10:00:00.000Z'') ''Short'' (Some 2) (Some 196),
      sampleTrade None ''Short'' (Some 2) (Some 0),
      sampleTrade (Some ''yesterday'') ''Short'' (Some 2) (Some 0)]"
  using filterByDate_cutoff [of "''2024-01-02''" samplePlatform 1704153600000
      "[sampleTrade (Some ''2024-01-01T10:00:00.000Z'') ''Long'' (Some 2) (Some 0),
        sampleTrade (Some ''2024-01-03T10:00:00.000Z'') ''Short'' (Some 2) (Some 196),
        sampleTrade None ''Short'' (Some 2) (Some 0),
        sampleTrade (Some ''yesterday'') ''Short'' (Some 2) (Some 0)]"]
  by (simp add: samplePlatform_def sampleTrade_def)

subsection \<open>closeLots in closed form\<close>

lemma closeLotsLoop_done:
  "remaining \<le> 0 \<Longrightarrow> closeLotsLoop lots P cl r remaining = (r, remaining, lots)"
  by (cases lots) simp_all

lemma sum_list_qty_nonneg:
  "\<forall>lot \<in> set lots. 0 < l_qty lot \<Longrightarrow> 0 \<le> sum_list (map l_qty lots)"
  by (induction lots) (auto intro: add_nonneg_nonneg less_imp_le)

lemma matchedQty_0 [simp]: "matchedQty (lot # rest) q 0 = min (l_qty lot) (max 0 q)"
  by (simp add: matchedQty_def)

lemma matchedQty_Suc [simp]:
  "matchedQty (lot # rest) q (Suc k) = matchedQty rest (q - l_qty lot) k"
  by (simp add: matchedQty_def algebra_simps)

lemma matchedQty_nonpos:
  assumes "\<forall>lot \<in> set lots. 0 < l_qty lot" "q \<le> 0" "k < length lots"
  shows "matchedQty lots q k = 0"
proof -
  have "0 \<le> sum_list (map l_qty (take k lots))"
    using assms(1) by (intro sum_list_qty_nonneg) (auto dest: in_set_takeD)
  moreover have "0 < l_qty (lots ! k)" using assms by simp
  ultimately show ?thesis using assms(2) by (simp add: matchedQty_def)
qed

lemma residualLots_nonpos:
  assumes "\<forall>lot \<in> set lots. 0 < l_qty lot" "q \<le> 0"
  shows "residualLots lots q = lots"
proof -
  have "residualLots lots q = map (\<lambda>k. lots ! k) [0..<length lots]"
    unfolding residualLots_def using assms
    by (auto simp: matchedQty_nonpos intro!: map_cong filter_True[THEN arg_cong])
  then show ?thesis by (simp add: map_nth)
qed

lemma residualLots_Cons:
  "residualLots (lot # rest) q =
     (if matchedQty (lot # rest) q 0 = 0 \<or> l_qty lot - matchedQty (lot # rest) q 0 > 1 / 100000000
      then [lot\<lparr>l_qty := l_qty lot - matchedQty (lot # rest) q 0\<rparr>] else [])
     @ residualLots rest (q - l_qty lot)"
proof -
  have "[0..<length (lot # rest)] = 0 # map Suc [0..<length rest]"
    by (simp add: upt_conv_Cons map_Suc_upt del: upt_Suc)
  then show ?thesis
    unfolding residualLots_def by (simp add: filter_map comp_def del: matchedQty_0)
qed

lemma closeLotsLoop_closed:
  assumes "\<forall>lot \<in> set lots. 0 < l_qty lot" "0 \<le> remaining"
  shows "closeLotsLoop lots P cl r remaining =
     (r + (\<Sum>k<length lots. matchedQty lots remaining k * unitPnl cl P (lots ! k)),
      max 0 (remaining - sum_list (map l_qty lots)),
      residualLots lots remaining)"
  using assms
proof (induction lots arbitrary: r remaining)
  case Nil
  then show ?case by (simp add: residualLots_def)
next
  case (Cons lot rest)
  have pos: "0 < l_qty lot" and posr: "\<forall>l \<in> set rest. 0 < l_qty l" using Cons.prems by auto
  have nn: "0 \<le> sum_list (map l_qty rest)" using posr by (rule sum_list_qty_nonneg)
  have split: "(\<Sum>k<length (lot # rest). matchedQty (lot # rest) remaining k * unitPnl cl P ((lot # rest) ! k))
     = matchedQty (lot # rest) remaining 0 * unitPnl cl P lot
       + (\<Sum>k<length rest. matchedQty rest (remaining - l_qty lot) k * unitPnl cl P (rest ! k))"
    by (simp add: sum.lessThan_Suc_shift del: sum.lessThan_Suc matchedQty_0)
  consider (zero) "remaining = 0" | (part) "0 < remaining" "remaining < l_qty lot"
    | (full) "0 < remaining" "l_qty lot \<le> remaining"
    using Cons.prems(2) by linarith
  then show ?case
  proof cases
    case zero
    have z: "(\<Sum>k<length rest. matchedQty rest (0 - l_qty lot) k * unitPnl cl P (rest ! k)) = 0"
      using posr pos by (intro sum.neutral) (simp add: matchedQty_nonpos)
    have "residualLots rest (0 - l_qty lot) = rest"
      using posr pos by (intro residualLots_nonpos) auto
    then show ?thesis unfolding split residualLots_Cons using zero pos nn z
      by (simp add: min_def)
  next
    case part
    have z: "(\<Sum>k<length rest. matchedQty rest (remaining - l_qty lot) k * unitPnl cl P (rest ! k)) = 0"
      using posr part by (intro sum.neutral) (simp add: matchedQty_nonpos)
    have res: "residualLots rest (remaining - l_qty lot) = rest"
      using posr part by (intro residualLots_nonpos) auto
    have step: "closeLotsLoop (lot # rest) P cl r remaining =
        (r + remaining * unitPnl cl P lot, 0,
         if l_qty lot - remaining \<le> 1 / 100000000 then rest
         else lot\<lparr>l_qty := l_qty lot - remaining\<rparr> # rest)"
      using part
      by (simp add: closeLotsLoop_done Let_def min_def unitPnl_def lotMultiplier_def algebra_simps)
    show ?thesis unfolding split residualLots_Cons z res step using part pos nn
      by (simp add: min_def max_def)
  next
    case full
    have ih: "closeLotsLoop rest P cl r' (remaining - l_qty lot) =
       (r' + (\<Sum>k<length rest. matchedQty rest (remaining - l_qty lot) k * unitPnl cl P (rest ! k)),
        max 0 (remaining - l_qty lot - sum_list (map l_qty rest)),
        residualLots rest (remaining - l_qty lot))" for r'
      using Cons.IH[OF posr, of "remaining - l_qty lot" r'] full by simp
    have step: "closeLotsLoop (lot # rest) P cl r remaining =
        closeLotsLoop rest P cl (r + l_qty lot * unitPnl cl P lot) (remaining - l_qty lot)"
      using full pos
      by (simp add: Let_def min_def unitPnl_def lotMultiplier_def algebra_simps)
    have m0: "matchedQty (lot # rest) remaining 0 = l_qty lot"
      using full by (simp add: min_def max_def)
    show ?thesis unfolding split residualLots_Cons step ih m0 using pos
      by (simp add: algebra_simps)
  qed
qed

subsection \<open>The row step\<close>

lemma closeLots_empty: "closeLots [] q p cl = (0, q, [])"
  by (simp add: closeLots_def)

lemma fillRow_long:
  assumes "toLowerCase (m_side (meta row)) = ''long'' \<or> toLowerCase (m_side (meta row)) = ''buy''"
    and "q \<noteq> 0" and "closeLots (getLots S tk) q p False = (rc, rem, sq')"
  shows "fillRow row tk q p L S =
    (if 0 < q - rem then setPnl row (rc - totalFee (meta row) * ((q - rem) / q)) else defaultPnl row,
     if 0 < rem
     then L(tk \<mapsto> getLots L tk @
            [\<lparr>l_qty = rem, price = p, feePerUnit = totalFee (meta row) / q,
              multiplier = (if pointValue (meta row) = 0 then 1 else pointValue (meta row))\<rparr>])
     else L,
     if sq' \<noteq> [] then S(tk \<mapsto> filter (\<lambda>lot. 0 < l_qty lot) sq') else S(tk := None))"
proof -
  have side: "(toLowerCase (m_side (meta row)) = ''long'' \<or> toLowerCase (m_side (meta row)) = ''buy'') = True"
    using assms(1) by simp
  show ?thesis
    unfolding fillRow_def Let_def side if_True assms(3) prod.case
    using assms(2) by simp
qed

lemma fillRow_short:
  assumes "toLowerCase (m_side (meta row)) = ''short'' \<or> toLowerCase (m_side (meta row)) = ''sell''"
    and "q \<noteq> 0" and "closeLots (getLots L tk) q p True = (rc, rem, lq')"
  shows "fillRow row tk q p L S =
    (if 0 < q - rem then setPnl row (rc - totalFee (meta row) * ((q - rem) / q)) else defaultPnl row,
     if lq' \<noteq> [] then L(tk \<mapsto> filter (\<lambda>lot. 0 < l_qty lot) lq') else L(tk := None),
     if 0 < rem
     then S(tk \<mapsto> getLots S tk @
            [\<lparr>l_qty = rem, price = p, feePerUnit = totalFee (meta row) / q,
              multiplier = (if pointValue (meta row) = 0 then 1 else pointValue (meta row))\<rparr>])
     else S)"
proof -
  have nolong: "(toLowerCase (m_side (meta row)) = ''long'' \<or> toLowerCase (m_side (meta row)) = ''buy'') = False"
    using assms(1) by auto
  have side: "(toLowerCase (m_side (meta row)) = ''short'' \<or> toLowerCase (m_side (meta row)) = ''sell'') = True"
    using assms(1) by simp
  show ?thesis
    unfolding fillRow_def Let_def nolong side if_True if_False assms(3) prod.case
    using assms(2) by simp
qed

lemma fillRow_other:
  assumes "toLowerCase (m_side (meta row)) \<notin> {''long'', ''buy'', ''short'', ''sell''}"
  shows "fillRow row tk q p L S = (defaultPnl row, L, S)"
proof -
  have nolong: "(toLowerCase (m_side (meta row)) = ''long'' \<or> toLowerCase (m_side (meta row)) = ''buy'') = False"
    and noshort: "(toLowerCase (m_side (meta row)) = ''short'' \<or> toLowerCase (m_side (meta row)) = ''sell'') = False"
    using assms by auto
  show ?thesis
    unfolding fillRow_def Let_def nolong noshort if_False prod.case by simp
qed

lemma fifoRow_numeric: "pnl (trade row) = Some v \<Longrightarrow> fifoRow row L S = (row, L, S)"
  by (simp add: fifoRow_def)

lemma fifoRow_missing:
  assumes "pnl (trade row) = None"
    and "ticker (trade row) \<in> {None, Some []} \<or> m_qty (meta row) \<in> {None, Some 0}
         \<or> fillPrice (meta row) = None"
  shows "fifoRow row L S = (setPnl row 0, L, S)"
  using assms by (auto simp: fifoRow_def defaultPnl_def split: option.splits)

lemma fifoRow_fill:
  assumes "pnl (trade row) = None" "ticker (trade row) = Some tk" "tk \<noteq> []"
    "m_qty (meta row) = Some q" "q \<noteq> 0" "fillPrice (meta row) = Some p"
  shows "fifoRow row L S = fillRow row tk q p L S"
  using assms by (simp add: fifoRow_def)

lemma fillRow_row:
  assumes "q \<noteq> 0"
  shows "\<exists>v. fst (fillRow row tk q p L S) = setPnl row v \<or> fst (fillRow row tk q p L S) = defaultPnl row"
proof -
  let ?s = "toLowerCase (m_side (meta row))"
  consider (long) "?s = ''long'' \<or> ?s = ''buy''" | (short) "?s = ''short'' \<or> ?s = ''sell''"
    | (other) "?s \<notin> {''long'', ''buy'', ''short'', ''sell''}" by auto
  then show ?thesis
  proof cases
    case long
    obtain rc rem sq' where "closeLots (getLots S tk) q p False = (rc, rem, sq')"
      by (cases "closeLots (getLots S tk) q p False") auto
    from fillRow_long[OF long assms this] show ?thesis by auto
  next
    case short
    obtain rc rem lq' where "closeLots (getLots L tk) q p True = (rc, rem, lq')"
      by (cases "closeLots (getLots L tk) q p True") auto
    from fillRow_short[OF short assms this] show ?thesis by auto
  next
    case other
    then show ?thesis by (simp add: fillRow_other)
  qed
qed

lemma fifoRow_row:
  "fst (fifoRow row L S) = row \<and> pnl (trade row) \<noteq> None
   \<or> (\<exists>v. fst (fifoRow row L S) = setPnl row v) \<and> pnl (trade row) = None"
proof (cases "pnl (trade row)")
  case (Some v)
  then show ?thesis by (simp add: fifoRow_numeric)
next
  case None
  have d: "defaultPnl row = setPnl row 0" using None by (simp add: defaultPnl_def)
  show ?thesis
  proof (cases "ticker (trade row) \<in> {None, Some []} \<or> m_qty (meta row) \<in> {None, Some 0}
         \<or> fillPrice (meta row) = None")
    case True
    from fifoRow_missing[OF None True] show ?thesis using None by auto
  next
    case False
    then obtain tk q p where v: "ticker (trade row) = Some tk" "tk \<noteq> []"
      "m_qty (meta row) = Some q" "q \<noteq> 0" "fillPrice (meta row) = Some p"
      by auto
    from fifoRow_fill[OF None v] fillRow_row[OF v(4), of row tk p L S] d
    show ?thesis using None by auto
  qed
qed


subsection \<open>The run\<close>

lemma length_fifoStep: "length (fst (fifoStep i st)) = length (fst st)"
  by (simp add: fifoStep_def split: prod.splits)

lemma length_fold_fifoStep: "length (fst (fold fifoStep idxs st)) = length (fst st)"
  by (induction idxs arbitrary: st) (simp_all add: length_fifoStep)

lemma fifoStep_other: "j \<noteq> i \<Longrightarrow> fst (fifoStep i st) ! j = fst st ! j"
  by (simp add: fifoStep_def split: prod.splits)

lemma fold_fifoStep_other:
  "j \<notin> set idxs \<Longrightarrow> fst (fold fifoStep idxs st) ! j = fst st ! j"
  by (induction idxs arbitrary: st) (simp_all add: fifoStep_other)

lemma fifoStep_self:
  "i < length (fst st) \<Longrightarrow>
   fst (fifoStep i st) ! i = fst (fifoRow (fst st ! i) (fst (snd st)) (snd (snd st)))"
  by (cases st) (auto simp: fifoStep_def split: prod.splits)

lemma fold_fifoStep_nth:
  assumes "distinct idxs" "i \<in> set idxs" "i < length (fst st)"
  shows "\<exists>L S. fst (fold fifoStep idxs st) ! i = fst (fifoRow (fst st ! i) L S)"
  using assms
proof (induction idxs arbitrary: st)
  case Nil
  then show ?case by simp
next
  case (Cons j idxs)
  show ?case
  proof (cases "i = j")
    case True
    then have "i \<notin> set idxs" using Cons.prems(1) by simp
    then have "fst (fold fifoStep (j # idxs) st) ! i = fst (fifoStep i st) ! i"
      using True by (simp add: fold_fifoStep_other)
    then show ?thesis using fifoStep_self[OF Cons.prems(3)] by metis
  next
    case False
    then have "i \<in> set idxs" "distinct idxs" using Cons.prems by auto
    moreover have "i < length (fst (fifoStep j st))" using Cons.prems(3) by (simp add: length_fifoStep)
    ultimately obtain L S where
      "fst (fold fifoStep idxs (fifoStep j st)) ! i = fst (fifoRow (fst (fifoStep j st) ! i) L S)"
      using Cons.IH by blast
    then show ?thesis using False by (auto simp: fifoStep_other)
  qed
qed

lemma ordered_perm: "distinct (ordered dp rows) \<and> set (ordered dp rows) = {0..<length rows}"
  by (simp add: ordered_def)

lemma deriveFifoPnl_nth:
  assumes "i < length rows"
  shows "\<exists>L S. deriveFifoPnl dp rows ! i = fst (fifoRow (rows ! i) L S)"
  using fold_fifoStep_nth[of "ordered dp rows" i "(rows, Map.empty, Map.empty)"] assms ordered_perm[of dp rows]
  by (simp add: deriveFifoPnl_def runFifo_def)

lemma length_deriveFifoPnl: "length (deriveFifoPnl dp rows) = length rows"
  by (simp add: deriveFifoPnl_def runFifo_def length_fold_fifoStep)

subsection \<open>Every row gets a PnL\<close>

lemma sample_run: "map (pnl \<circ> trade) (deriveFifoPnl (dateParse samplePlatform) sampleRows) = [Some 0, Some 196, Some 0]"
  by code_simp

text \<open>
  Claim C3. After FIFO reconciliation every row has a numeric PnL: a row that entered with
  a numeric PnL keeps its value, every other row is assigned one. A row without numeric PnL
  whose ticker is missing or empty, whose quantity is missing or zero, or whose fill price
  is missing is assigned the PnL 0. The reconciliation is a total function, and it returns
  as many rows as it was given.
\<close>

theorem deriveFifoPnl_pnl_present:
  "length (deriveFifoPnl dp rows) = length rows \<and>
   (\<forall>i<length rows.
      pnl (trade (deriveFifoPnl dp rows ! i)) \<noteq> None \<and>
      (\<forall>v. pnl (trade (rows ! i)) = Some v \<longrightarrow>
           pnl (trade (deriveFifoPnl dp rows ! i)) = Some v) \<and>
      (pnl (trade (rows ! i)) = None \<and>
       (ticker (trade (rows ! i)) \<in> {None, Some []} \<or> m_qty (meta (rows ! i)) \<in> {None, Some 0}
        \<or> fillPrice (meta (rows ! i)) = None)
         \<longrightarrow> pnl (trade (deriveFifoPnl dp rows ! i)) = Some 0))"
proof (intro conjI allI impI)
  show "length (deriveFifoPnl dp rows) = length rows" by (rule length_deriveFifoPnl)
next
  fix i assume i: "i < length rows"
  from deriveFifoPnl_nth[OF i, of dp] obtain L S
    where out: "deriveFifoPnl dp rows ! i = fst (fifoRow (rows ! i) L S)" by blast
  show "pnl (trade (deriveFifoPnl dp rows ! i)) \<noteq> None"
    using fifoRow_row[of "rows ! i" L S] out by (auto simp: setPnl_def)
  { fix v assume "pnl (trade (rows ! i)) = Some v"
    then show "pnl (trade (deriveFifoPnl dp rows ! i)) = Some v"
      using out by (simp add: fifoRow_numeric) }
  { assume "pnl (trade (rows ! i)) = None \<and>
       (ticker (trade (rows ! i)) \<in> {None, Some []} \<or> m_qty (meta (rows ! i)) \<in> {None, Some 0}
        \<or> fillPrice (meta (rows ! i)) = None)"
    then have "fifoRow (rows ! i) L S = (setPnl (rows ! i) 0, L, S)"
      by (intro fifoRow_missing) auto
    then show "pnl (trade (deriveFifoPnl dp rows ! i)) = Some 0"
      using out by (simp add: setPnl_def) }
qed

theorem deriveFifoPnl_pnl_present_witness:
  "(2::nat) < length sampleRows \<and> pnl (trade (sampleRows ! 2)) = None \<and>
   fillPrice (meta (sampleRows ! 2)) = None \<and>
   pnl (trade (deriveFifoPnl (dateParse samplePlatform) sampleRows ! 2)) = Some 0"
proof -
  have h: "(2::nat) < length sampleRows" "pnl (trade (sampleRows ! 2)) = None"
    "fillPrice (meta (sampleRows ! 2)) = None"
    by (simp_all add: sampleRows_def sampleRow_def sampleTrade_def)
  from deriveFifoPnl_pnl_present[of "dateParse samplePlatform" sampleRows] h
  have "pnl (trade (deriveFifoPnl (dateParse samplePlatform) sampleRows ! 2)) = Some 0"
    by blast
  with h show ?thesis by simp
qed

subsection \<open>Only the PnL is written\<close>

text \<open>
  Claim C10. FIFO reconciliation returns the rows in their positions, and for every row the
  metadata and all fields of the trade other than the PnL are as before; a row whose PnL is
  numeric on entry is returned unchanged.
\<close>

theorem deriveFifoPnl_frame:
  "length (deriveFifoPnl dp rows) = length rows \<and>
   (\<forall>i<length rows.
      meta (deriveFifoPnl dp rows ! i) = meta (rows ! i) \<and>
      entry_ts (trade (deriveFifoPnl dp rows ! i)) = entry_ts (trade (rows ! i)) \<and>
      date (trade (deriveFifoPnl dp rows ! i)) = date (trade (rows ! i)) \<and>
      time (trade (deriveFifoPnl dp rows ! i)) = time (trade (rows ! i)) \<and>
      side (trade (deriveFifoPnl dp rows ! i)) = side (trade (rows ! i)) \<and>
      type (trade (deriveFifoPnl dp rows ! i)) = type (trade (rows ! i)) \<and>
      ticker (trade (deriveFifoPnl dp rows ! i)) = ticker (trade (rows ! i)) \<and>
      qty (trade (deriveFifoPnl dp rows ! i)) = qty (trade (rows ! i)) \<and>
      change (trade (deriveFifoPnl dp rows ! i)) = change (trade (rows ! i)) \<and>
      source_account (trade (deriveFifoPnl dp rows ! i)) = source_account (trade (rows ! i)) \<and>
      source_broker (trade (deriveFifoPnl dp rows ! i)) = source_broker (trade (rows ! i)) \<and>
      (pnl (trade (rows ! i)) \<noteq> None \<longrightarrow> deriveFifoPnl dp rows ! i = rows ! i))"
proof (intro conjI allI impI)
  show "length (deriveFifoPnl dp rows) = length rows" by (rule length_deriveFifoPnl)
next
  fix i assume i: "i < length rows"
  from deriveFifoPnl_nth[OF i, of dp] obtain L S
    where out: "deriveFifoPnl dp rows ! i = fst (fifoRow (rows ! i) L S)" by blast
  from fifoRow_row[of "rows ! i" L S] out
  have shape: "deriveFifoPnl dp rows ! i = rows ! i \<and> pnl (trade (rows ! i)) \<noteq> None \<or>
     (\<exists>v. deriveFifoPnl dp rows ! i = setPnl (rows ! i) v) \<and> pnl (trade (rows ! i)) = None"
    by simp
  show "meta (deriveFifoPnl dp rows ! i) = meta (rows ! i)"
    using shape by (auto simp: setPnl_def)
  show "entry_ts (trade (deriveFifoPnl dp rows ! i)) = entry_ts (trade (rows ! i))"
    using shape by (auto simp: setPnl_def)
  show "date (trade (deriveFifoPnl dp rows ! i)) = date (trade (rows ! i))"
    using shape by (auto simp: setPnl_def)
  show "time (trade (deriveFifoPnl dp rows ! i)) = time (trade (rows ! i))"
    using shape by (auto simp: setPnl_def)
  show "side (trade (deriveFifoPnl dp rows ! i)) = side (trade (rows ! i))"
    using shape by (auto simp: setPnl_def)
  show "type (trade (deriveFifoPnl dp rows ! i)) = type (trade (rows ! i))"
    using shape by (auto simp: setPnl_def)
  show "ticker (trade (deriveFifoPnl dp rows ! i)) = ticker (trade (rows ! i))"
    using shape by (auto simp: setPnl_def)
  show "qty (trade (deriveFifoPnl dp rows ! i)) = qty (trade (rows ! i))"
    using shape by (auto simp: setPnl_def)
  show "change (trade (deriveFifoPnl dp rows ! i)) = change (trade (rows ! i))"
    using shape by (auto simp: setPnl_def)
  show "source_account (trade (deriveFifoPnl dp rows ! i)) = source_account (trade (rows ! i))"
    using shape by (auto simp: setPnl_def)
  show "source_broker (trade (deriveFifoPnl dp rows ! i)) = source_broker (trade (rows ! i))"
    using shape by (auto simp: setPnl_def)
  { assume "pnl (trade (rows ! i)) \<noteq> None"
    then show "deriveFifoPnl dp rows ! i = rows ! i" using shape by auto }
qed

theorem deriveFifoPnl_frame_witness:
  "(1::nat) < length [sampleRows ! 0, setPnl (sampleRows ! 1) 7] \<and>
   pnl (trade ([sampleRows ! 0, setPnl (sampleRows ! 1) 7] ! 1)) \<noteq> None \<and>
   deriveFifoPnl (dateParse samplePlatform) [sampleRows ! 0, setPnl (sampleRows ! 1) 7] ! 1
     = setPnl (sampleRows ! 1) 7 \<and>
   meta (deriveFifoPnl (dateParse samplePlatform) [sampleRows ! 0, setPnl (sampleRows ! 1) 7] ! 1)
     = meta (sampleRows ! 1)"
proof -
  let ?rows = "[sampleRows ! 0, setPnl (sampleRows ! 1) 7]"
  have h: "(1::nat) < length ?rows" "pnl (trade (?rows ! 1)) \<noteq> None"
    by (simp_all add: setPnl_def)
  from deriveFifoPnl_frame[of "dateParse samplePlatform" ?rows] h
  have "deriveFifoPnl (dateParse samplePlatform) ?rows ! 1 = ?rows ! 1"
    by blast
  with h show ?thesis by (simp add: setPnl_def)
qed

subsection \<open>Lots have positive quantities\<close>

lemma closeLotsLoop_queue:
  "\<forall>lot' \<in> set (snd (snd (closeLotsLoop lots P cl r remaining))).
      lot' \<in> set lots \<or> 1 / 100000000 < l_qty lot'"
proof (induction lots P cl r remaining rule: closeLotsLoop.induct)
  case (1 exitPrice closingLong realized remaining)
  then show ?case by simp
next
  case (2 lot rest exitPrice closingLong realized remaining)
  show ?case
  proof (cases "0 < remaining")
    case False
    then show ?thesis by simp
  next
    case True
    let ?m = "min remaining (l_qty lot)"
    show ?thesis
    proof (cases "l_qty lot - ?m \<le> 1 / 100000000")
      case small: True
      have "closeLotsLoop (lot # rest) exitPrice closingLong realized remaining =
        closeLotsLoop rest exitPrice closingLong
          (realized + ((if closingLong then exitPrice - price lot else price lot - exitPrice) * ?m *
             (if multiplier lot = 0 then 1 else multiplier lot) - feePerUnit lot * ?m))
          (remaining - ?m)"
        using True small by (simp add: Let_def)
      moreover have "\<forall>lot' \<in> set (snd (snd (closeLotsLoop rest exitPrice closingLong
          (realized + ((if closingLong then exitPrice - price lot else price lot - exitPrice) * ?m *
             (if multiplier lot = 0 then 1 else multiplier lot) - feePerUnit lot * ?m))
          (remaining - ?m)))). lot' \<in> set rest \<or> 1 / 100000000 < l_qty lot'"
        using "2.IH"[OF True refl refl refl refl refl] small by simp
      ultimately show ?thesis by auto
    next
      case big: False
      then have m: "?m = remaining" by (simp add: min_def split: if_splits)
      have "closeLotsLoop (lot # rest) exitPrice closingLong realized remaining =
        (realized + ((if closingLong then exitPrice - price lot else price lot - exitPrice) * ?m *
             (if multiplier lot = 0 then 1 else multiplier lot) - feePerUnit lot * ?m),
         0, lot\<lparr>l_qty := l_qty lot - ?m\<rparr> # rest)"
        using True big unfolding m by (simp add: Let_def closeLotsLoop_done)
      then show ?thesis using big by auto
    qed
  qed
qed

lemma lotsPositive_empty: "lotsPositive Map.empty"
  by (simp add: lotsPositive_def)

lemma lotsPositive_getLots: "lotsPositive m \<Longrightarrow> \<forall>lot \<in> set (getLots m tk). 0 < l_qty lot"
  unfolding lotsPositive_def getLots_def by (cases "m tk") auto

lemma lotsPositive_upd:
  "lotsPositive m \<Longrightarrow> \<forall>lot \<in> set lots. 0 < l_qty lot \<Longrightarrow> lotsPositive (m(tk \<mapsto> lots))"
  by (auto simp: lotsPositive_def)

lemma lotsPositive_del: "lotsPositive m \<Longrightarrow> lotsPositive (m(tk := None))"
  by (auto simp: lotsPositive_def)

lemma fillRow_lotsPositive:
  assumes "lotsPositive L" "lotsPositive S" "q \<noteq> 0"
  shows "lotsPositive (fst (snd (fillRow row tk q p L S))) \<and>
         lotsPositive (snd (snd (fillRow row tk q p L S)))"
proof -
  let ?s = "toLowerCase (m_side (meta row))"
  consider (long) "?s = ''long'' \<or> ?s = ''buy''" | (short) "?s = ''short'' \<or> ?s = ''sell''"
    | (other) "?s \<notin> {''long'', ''buy'', ''short'', ''sell''}" by auto
  then show ?thesis
  proof cases
    case long
    obtain rc rem sq' where c: "closeLots (getLots S tk) q p False = (rc, rem, sq')"
      by (cases "closeLots (getLots S tk) q p False") auto
    show ?thesis unfolding fillRow_long[OF long assms(3) c]
      using assms(1,2) lotsPositive_getLots[OF assms(1), of tk]
      by (auto intro!: lotsPositive_upd lotsPositive_del)
  next
    case short
    obtain rc rem lq' where c: "closeLots (getLots L tk) q p True = (rc, rem, lq')"
      by (cases "closeLots (getLots L tk) q p True") auto
    show ?thesis unfolding fillRow_short[OF short assms(3) c]
      using assms(1,2) lotsPositive_getLots[OF assms(2), of tk]
      by (auto intro!: lotsPositive_upd lotsPositive_del)
  next
    case other
    then show ?thesis using assms by (simp add: fillRow_other)
  qed
qed

lemma fifoRow_lotsPositive:
  assumes "lotsPositive L" "lotsPositive S"
  shows "lotsPositive (fst (snd (fifoRow row L S))) \<and> lotsPositive (snd (snd (fifoRow row L S)))"
proof (cases "pnl (trade row)")
  case (Some v)
  then show ?thesis using assms by (simp add: fifoRow_numeric)
next
  case None
  show ?thesis
  proof (cases "ticker (trade row) \<in> {None, Some []} \<or> m_qty (meta row) \<in> {None, Some 0}
         \<or> fillPrice (meta row) = None")
    case True
    from fifoRow_missing[OF None True] show ?thesis using assms by simp
  next
    case False
    then obtain tk q p where v: "ticker (trade row) = Some tk" "tk \<noteq> []"
      "m_qty (meta row) = Some q" "q \<noteq> 0" "fillPrice (meta row) = Some p"
      by auto
    show ?thesis unfolding fifoRow_fill[OF None v]
      by (rule fillRow_lotsPositive[OF assms v(4)])
  qed
qed

lemma fifoStep_lotsPositive:
  assumes "lotsPositive (fst (snd st)) \<and> lotsPositive (snd (snd st))"
  shows "lotsPositive (fst (snd (fifoStep i st))) \<and> lotsPositive (snd (snd (fifoStep i st)))"
proof -
  obtain rows L S where st: "st = (rows, L, S)" by (cases st) auto
  obtain row' L' S' where r: "fifoRow (rows ! i) L S = (row', L', S')"
    by (cases "fifoRow (rows ! i) L S") auto
  from fifoRow_lotsPositive[of L S "rows ! i"] assms st r
  show ?thesis by (simp add: fifoStep_def)
qed

lemma fold_fifoStep_lotsPositive:
  "lotsPositive (fst (snd st)) \<and> lotsPositive (snd (snd st)) \<Longrightarrow>
   lotsPositive (fst (snd (fold fifoStep idxs st))) \<and>
   lotsPositive (snd (snd (fold fifoStep idxs st)))"
  by (induction idxs arbitrary: st) (simp_all add: fifoStep_lotsPositive)

lemma sample_first_step:
  "getLots (fst (snd (fold fifoStep [0] (sampleRows, Map.empty, Map.empty)))) ''NQ''
     = [\<lparr>l_qty = 2, price = 100, feePerUnit = 1, multiplier = 20\<rparr>]"
  by code_simp

lemma sample_close:
  "snd (snd (closeLots [\<lparr>l_qty = 2, price = 100, feePerUnit = 1, multiplier = 20\<rparr>] 1 105 True))
     = [\<lparr>l_qty = 1, price = 100, feePerUnit = 1, multiplier = 20\<rparr>]"
  by (simp add: closeLots_def)

text \<open>
  Claim C9. Whatever rows have been processed so far, starting from the empty maps, every
  lot of every Long or Short queue has a strictly positive quantity; processing one more
  row keeps it so. In the queue that \<open>closeLots\<close> leaves behind, every lot is either a
  lot of the queue as it was, or has more than \<open>1e-8\<close> left: a lot reduced to at most
  \<open>1e-8\<close> is gone when the next row is processed.
\<close>

theorem lots_positive_throughout:
  "lotsPositive (fst (snd (fold fifoStep idxs (rows, Map.empty, Map.empty)))) \<and>
   lotsPositive (snd (snd (fold fifoStep idxs (rows, Map.empty, Map.empty)))) \<and>
   (lotsPositive L \<and> lotsPositive S \<longrightarrow>
      lotsPositive (fst (snd (fifoRow row L S))) \<and> lotsPositive (snd (snd (fifoRow row L S)))) \<and>
   (\<forall>lot' \<in> set (snd (snd (closeLots lots q p cl))). lot' \<in> set lots \<or> 1 / 100000000 < l_qty lot')"
  using fold_fifoStep_lotsPositive[of "(rows, Map.empty, Map.empty)" idxs]
    fifoRow_lotsPositive[of L S row] closeLotsLoop_queue[of lots p cl 0 q]
  by (simp add: lotsPositive_empty closeLots_def)

theorem lots_positive_throughout_witness:
  "lotsPositive Map.empty \<and>
   getLots (fst (snd (fold fifoStep [0] (sampleRows, Map.empty, Map.empty)))) ''NQ''
     = [\<lparr>l_qty = 2, price = 100, feePerUnit = 1, multiplier = 20\<rparr>] \<and>
   lotsPositive (fst (snd (fold fifoStep [0] (sampleRows, Map.empty, Map.empty)))) \<and>
   snd (snd (closeLots [\<lparr>l_qty = 2, price = 100, feePerUnit = 1, multiplier = 20\<rparr>] 1 105 True))
     = [\<lparr>l_qty = 1, price = 100, feePerUnit = 1, multiplier = 20\<rparr>] \<and>
   (1 / 100000000 :: real) < l_qty \<lparr>l_qty = 1, price = 100, feePerUnit = 1, multiplier = 20\<rparr>"
proof -
  from lots_positive_throughout[of "[0]" sampleRows Map.empty Map.empty "sampleRows ! 0"
      "[\<lparr>l_qty = 2, price = 100, feePerUnit = 1, multiplier = 20\<rparr>]" 1 105 True]
  have pos: "lotsPositive (fst (snd (fold fifoStep [0] (sampleRows, Map.empty, Map.empty))))"
    by blast
  show ?thesis
    by (intro conjI lotsPositive_empty sample_first_step pos sample_close) simp
qed


subsection \<open>A fill in closed form\<close>

lemma sum_list_qty_pos:
  "\<forall>lot \<in> set lots. 0 < l_qty lot \<Longrightarrow> lots \<noteq> [] \<Longrightarrow> 0 < sum_list (map l_qty lots)"
  by (cases lots) (auto intro: add_pos_nonneg sum_list_qty_nonneg)

lemma closeLots_closed:
  assumes "\<forall>lot \<in> set lots. 0 < l_qty lot" "0 \<le> q"
  shows "closeLots lots q p cl =
     (\<Sum>k<length lots. matchedQty lots q k * unitPnl cl p (lots ! k),
      max 0 (q - sum_list (map l_qty lots)),
      residualLots lots q)"
  using closeLotsLoop_closed[OF assms, of p cl 0] by (simp add: closeLots_def)

lemma residualLots_pos:
  assumes "\<forall>lot \<in> set lots. 0 < l_qty lot" "0 \<le> q"
  shows "\<forall>lot \<in> set (residualLots lots q). 0 < l_qty lot"
proof
  fix lot assume "lot \<in> set (residualLots lots q)"
  then have "lot \<in> set (snd (snd (closeLotsLoop lots 0 True 0 q)))"
    using closeLotsLoop_closed[OF assms, of 0 True 0] by simp
  with closeLotsLoop_queue[of lots 0 True 0 q]
  have "lot \<in> set lots \<or> 1 / 100000000 < l_qty lot" by blast
  then show "0 < l_qty lot" using assms(1) by auto
qed

lemma fill_pnl_closed:
  assumes "pnl (trade row) = None" "\<forall>lot \<in> set lots. 0 < l_qty lot" "0 < q"
    and "R = (\<Sum>k<length lots. matchedQty lots q k * u k)"
  shows "(if 0 < q - max 0 (q - sum_list (map l_qty lots))
          then setPnl row (R - fee * ((q - max 0 (q - sum_list (map l_qty lots))) / q))
          else defaultPnl row)
       = setPnl row (R - fee * (min q (sum_list (map l_qty lots)) / q))"
proof (cases "lots = []")
  case True
  then show ?thesis using assms by (simp add: defaultPnl_def)
next
  case False
  then have "0 < sum_list (map l_qty lots)" using assms(2) by (intro sum_list_qty_pos)
  moreover have "q - max 0 (q - sum_list (map l_qty lots)) = min q (sum_list (map l_qty lots))"
    by (simp add: min_def max_def)
  ultimately show ?thesis using assms(3) by simp
qed

lemma fifoRow_long_closed:
  assumes row: "pnl (trade row) = None" "ticker (trade row) = Some tk" "tk \<noteq> []"
      "m_qty (meta row) = Some q" "0 < q" "fillPrice (meta row) = Some p"
    and pos: "lotsPositive S"
    and side: "toLowerCase (m_side (meta row)) = ''long'' \<or> toLowerCase (m_side (meta row)) = ''buy''"
  shows "fifoRow row L S =
    (setPnl row
       ((\<Sum>k<length (getLots S tk). matchedQty (getLots S tk) q k *
            ((price (getLots S tk ! k) - p) * lotMultiplier (getLots S tk ! k)
               - feePerUnit (getLots S tk ! k)))
        - totalFee (meta row) * (min q (sum_list (map l_qty (getLots S tk))) / q)),
     if sum_list (map l_qty (getLots S tk)) < q
     then L(tk \<mapsto> getLots L tk @
            [\<lparr>l_qty = q - sum_list (map l_qty (getLots S tk)), price = p,
              feePerUnit = totalFee (meta row) / q,
              multiplier = (if pointValue (meta row) = 0 then 1 else pointValue (meta row))\<rparr>])
     else L,
     if residualLots (getLots S tk) q \<noteq> [] then S(tk \<mapsto> residualLots (getLots S tk) q)
     else S(tk := None))"
proof -
  let ?sq = "getLots S tk"
  have p: "\<forall>lot \<in> set ?sq. 0 < l_qty lot" using pos by (rule lotsPositive_getLots)
  have q0: "q \<noteq> 0" "0 \<le> q" using row(5) by auto
  note c = closeLots_closed[OF p q0(2), of p False]
  have R: "(\<Sum>k<length ?sq. matchedQty ?sq q k * unitPnl False p (?sq ! k)) =
      (\<Sum>k<length ?sq. matchedQty ?sq q k *
            ((price (?sq ! k) - p) * lotMultiplier (?sq ! k) - feePerUnit (?sq ! k)))"
    by (simp add: unitPnl_def)
  have f: "filter (\<lambda>lot. 0 < l_qty lot) (residualLots ?sq q) = residualLots ?sq q"
    using residualLots_pos[OF p q0(2)] by (simp add: filter_id_conv)
  have rem: "(0 < max 0 (q - sum_list (map l_qty ?sq))) = (sum_list (map l_qty ?sq) < q)"
    "sum_list (map l_qty ?sq) < q \<Longrightarrow> max 0 (q - sum_list (map l_qty ?sq)) = q - sum_list (map l_qty ?sq)"
    by (auto simp: max_def)
  show ?thesis
    unfolding fifoRow_fill[OF row(1-4) q0(1) row(6)] fillRow_long[OF side q0(1) c]
      fill_pnl_closed[OF row(1) p row(5) refl] f R
    using rem by auto
qed

lemma fifoRow_short_closed:
  assumes row: "pnl (trade row) = None" "ticker (trade row) = Some tk" "tk \<noteq> []"
      "m_qty (meta row) = Some q" "0 < q" "fillPrice (meta row) = Some p"
    and pos: "lotsPositive L"
    and side: "toLowerCase (m_side (meta row)) = ''short'' \<or> toLowerCase (m_side (meta row)) = ''sell''"
  shows "fifoRow row L S =
    (setPnl row
       ((\<Sum>k<length (getLots L tk). matchedQty (getLots L tk) q k *
            ((p - price (getLots L tk ! k)) * lotMultiplier (getLots L tk ! k)
               - feePerUnit (getLots L tk ! k)))
        - totalFee (meta row) * (min q (sum_list (map l_qty (getLots L tk))) / q)),
     if residualLots (getLots L tk) q \<noteq> [] then L(tk \<mapsto> residualLots (getLots L tk) q)
     else L(tk := None),
     if sum_list (map l_qty (getLots L tk)) < q
     then S(tk \<mapsto> getLots S tk @
            [\<lparr>l_qty = q - sum_list (map l_qty (getLots L tk)), price = p,
              feePerUnit = totalFee (meta row) / q,
              multiplier = (if pointValue (meta row) = 0 then 1 else pointValue (meta row))\<rparr>])
     else S)"
proof -
  let ?lq = "getLots L tk"
  have p: "\<forall>lot \<in> set ?lq. 0 < l_qty lot" using pos by (rule lotsPositive_getLots)
  have q0: "q \<noteq> 0" "0 \<le> q" using row(5) by auto
  note c = closeLots_closed[OF p q0(2), of p True]
  have R: "(\<Sum>k<length ?lq. matchedQty ?lq q k * unitPnl True p (?lq ! k)) =
      (\<Sum>k<length ?lq. matchedQty ?lq q k *
            ((p - price (?lq ! k)) * lotMultiplier (?lq ! k) - feePerUnit (?lq ! k)))"
    by (simp add: unitPnl_def)
  have f: "filter (\<lambda>lot. 0 < l_qty lot) (residualLots ?lq q) = residualLots ?lq q"
    using residualLots_pos[OF p q0(2)] by (simp add: filter_id_conv)
  have rem: "(0 < max 0 (q - sum_list (map l_qty ?lq))) = (sum_list (map l_qty ?lq) < q)"
    "sum_list (map l_qty ?lq) < q \<Longrightarrow> max 0 (q - sum_list (map l_qty ?lq)) = q - sum_list (map l_qty ?lq)"
    by (auto simp: max_def)
  show ?thesis
    unfolding fifoRow_fill[OF row(1-4) q0(1) row(6)] fillRow_short[OF side q0(1) c]
      fill_pnl_closed[OF row(1) p row(5) refl] f R
    using rem by auto
qed

lemma sampleShortLots_positive: "lotsPositive sampleShortLots"
  by (auto simp: lotsPositive_def sampleShortLots_def split: if_splits)

text \<open>
  Claim C2. A row without PnL, with a ticker, a positive quantity \<open>q\<close> and a fill price
  \<open>p\<close>, is processed in a state whose lots are positive. If its side is Long (or buy),
  the Short queue of the ticker is consumed oldest lot first: the lot at position \<open>k\<close> is
  matched with \<open>matchedQty\<close>, what the older lots leave of \<open>q\<close> up to its own
  quantity, and contributes \<open>(lot.price - p) * multiplier - lot.feePerUnit\<close> per matched
  unit; the PnL of the row is the sum of the contributions less the share of the row's own
  commission for the matched quantity. The Short queue becomes \<open>residualLots\<close> (it is
  deleted when that is empty), and what is left of \<open>q\<close> after the whole Short queue, if
  anything, is appended as a new lot at price \<open>p\<close> to the end of the Long queue. For the
  side Short (or sell) the same holds with the queues exchanged and \<open>p - lot.price\<close>.
\<close>

theorem fifo_fill_matching:
  assumes "pnl (trade row) = None" "ticker (trade row) = Some tk" "tk \<noteq> []"
      "m_qty (meta row) = Some q" "0 < q" "fillPrice (meta row) = Some p"
    and "lotsPositive L" "lotsPositive S"
  shows
   "(toLowerCase (m_side (meta row)) = ''long'' \<or> toLowerCase (m_side (meta row)) = ''buy'' \<longrightarrow>
      fifoRow row L S =
        (setPnl row
           ((\<Sum>k<length (getLots S tk). matchedQty (getLots S tk) q k *
                ((price (getLots S tk ! k) - p) * lotMultiplier (getLots S tk ! k)
                   - feePerUnit (getLots S tk ! k)))
            - totalFee (meta row) * (min q (sum_list (map l_qty (getLots S tk))) / q)),
         if sum_list (map l_qty (getLots S tk)) < q
         then L(tk \<mapsto> getLots L tk @
                [\<lparr>l_qty = q - sum_list (map l_qty (getLots S tk)), price = p,
                  feePerUnit = totalFee (meta row) / q,
                  multiplier = (if pointValue (meta row) = 0 then 1 else pointValue (meta row))\<rparr>])
         else L,
         if residualLots (getLots S tk) q \<noteq> [] then S(tk \<mapsto> residualLots (getLots S tk) q)
         else S(tk := None))) \<and>
    (toLowerCase (m_side (meta row)) = ''short'' \<or> toLowerCase (m_side (meta row)) = ''sell'' \<longrightarrow>
      fifoRow row L S =
        (setPnl row
           ((\<Sum>k<length (getLots L tk). matchedQty (getLots L tk) q k *
                ((p - price (getLots L tk ! k)) * lotMultiplier (getLots L tk ! k)
                   - feePerUnit (getLots L tk ! k)))
            - totalFee (meta row) * (min q (sum_list (map l_qty (getLots L tk))) / q)),
         if residualLots (getLots L tk) q \<noteq> [] then L(tk \<mapsto> residualLots (getLots L tk) q)
         else L(tk := None),
         if sum_list (map l_qty (getLots L tk)) < q
         then S(tk \<mapsto> getLots S tk @
                [\<lparr>l_qty = q - sum_list (map l_qty (getLots L tk)), price = p,
                  feePerUnit = totalFee (meta row) / q,
                  multiplier = (if pointValue (meta row) = 0 then 1 else pointValue (meta row))\<rparr>])
         else S))"
  using fifoRow_long_closed[OF assms(1-6) assms(8), of L]
    fifoRow_short_closed[OF assms(1-6) assms(7), of S]
  by blast

theorem fifo_fill_matching_witness:
  "pnl (trade (sampleRows ! 0)) = None \<and> ticker (trade (sampleRows ! 0)) = Some ''NQ'' \<and>
   ''NQ'' \<noteq> [] \<and> m_qty (meta (sampleRows ! 0)) = Some 2 \<and> (0::real) < 2 \<and>
   fillPrice (meta (sampleRows ! 0)) = Some 100 \<and>
   lotsPositive Map.empty \<and> lotsPositive sampleShortLots \<and>
   toLowerCase (m_side (meta (sampleRows ! 0))) = ''long'' \<and>
   fifoRow (sampleRows ! 0) Map.empty sampleShortLots =
     (setPnl (sampleRows ! 0) (1193 / 2), Map.empty,
      sampleShortLots(''NQ'' \<mapsto> [\<lparr>l_qty = 1, price = 120, feePerUnit = 1, multiplier = 20\<rparr>]))"
proof -
  have h: "pnl (trade (sampleRows ! 0)) = None" "ticker (trade (sampleRows ! 0)) = Some ''NQ''"
    "''NQ'' \<noteq> []" "m_qty (meta (sampleRows ! 0)) = Some 2" "(0::real) < 2"
    "fillPrice (meta (sampleRows ! 0)) = Some 100"
    by (simp_all add: sampleRows_def sampleRow_def sampleTrade_def)
  have s: "toLowerCase (m_side (meta (sampleRows ! 0))) = ''long''"
    by (simp add: sampleRows_def sampleRow_def toLowerCase_def lowerChar_def upperChars_def lowerChars_def)
  have q: "getLots sampleShortLots ''NQ'' =
      [\<lparr>l_qty = 1, price = 110, feePerUnit = 1 / 2, multiplier = 20\<rparr>,
       \<lparr>l_qty = 2, price = 120, feePerUnit = 1, multiplier = 20\<rparr>]"
    by (simp add: getLots_def sampleShortLots_def)
  have t: "totalFee (meta (sampleRows ! 0)) = 2"
    by (simp add: sampleRows_def sampleRow_def)
  have r: "residualLots [\<lparr>l_qty = 1, price = 110, feePerUnit = 1 / 2, multiplier = 20\<rparr>,
       \<lparr>l_qty = 2, price = 120, feePerUnit = 1, multiplier = 20\<rparr>] 2
      = [\<lparr>l_qty = 1, price = 120, feePerUnit = 1, multiplier = 20\<rparr>]"
    by (simp add: residualLots_def matchedQty_def upt_rec)
  from fifo_fill_matching[OF h lotsPositive_empty sampleShortLots_positive]
  have "fifoRow (sampleRows ! 0) Map.empty sampleShortLots =
     (setPnl (sampleRows ! 0) (1193 / 2), Map.empty,
      sampleShortLots(''NQ'' \<mapsto> [\<lparr>l_qty = 1, price = 120, feePerUnit = 1, multiplier = 20\<rparr>]))"
    unfolding q r t using s
    by (simp add: matchedQty_def lotMultiplier_def lessThan_Suc numeral_2_eq_2)
  with h s lotsPositive_empty sampleShortLots_positive show ?thesis by simp
qed

subsection \<open>Round trip\<close>

lemma sampleOlderLot_run:
  "getLots (snd (snd (fold fifoStep [0] (sampleOlderLot, Map.empty, Map.empty)))) ''NQ'' = [] \<and>
   ordered (dateParse samplePlatform) sampleOlderLot = [0, 1, 2] \<and>
   pnl (trade (deriveFifoPnl (dateParse samplePlatform) sampleOlderLot ! 1)) = Some 0 \<and>
   pnl (trade (deriveFifoPnl (dateParse samplePlatform) sampleOlderLot ! 2)) = Some 1100 \<and>
   getLots (fst (snd (runFifo (dateParse samplePlatform) sampleOlderLot))) ''NQ''
     = [\<lparr>l_qty = 1, price = 100, feePerUnit = 0, multiplier = 20\<rparr>]"
  by code_simp


text \<open>
  Claim C1, as the code has it. The ticker's Short queue and its Long queue are both empty.
  A Long fill of quantity \<open>Q\<close> at price \<open>P\<close> with total commission \<open>F * Q\<close> followed by
  a Short fill of \<open>Q\<close> at \<open>P2\<close> without commission gives the opening row the PnL 0 and
  the closing row the PnL \<open>(P2 - P) * Q * multiplier - F * Q\<close>, where the multiplier is the
  point value of the opening row (1 if that is 0), and the Long queue of the ticker is
  empty afterwards.
\<close>

theorem round_trip:
  assumes opn: "pnl (trade openRow) = None" "ticker (trade openRow) = Some tk"
      "m_qty (meta openRow) = Some Q" "fillPrice (meta openRow) = Some P"
      "totalFee (meta openRow) = F * Q"
      "toLowerCase (m_side (meta openRow)) = ''long'' \<or> toLowerCase (m_side (meta openRow)) = ''buy''"
    and cls: "pnl (trade closeRow) = None" "ticker (trade closeRow) = Some tk"
      "m_qty (meta closeRow) = Some Q" "fillPrice (meta closeRow) = Some P2"
      "totalFee (meta closeRow) = 0"
      "toLowerCase (m_side (meta closeRow)) = ''short'' \<or> toLowerCase (m_side (meta closeRow)) = ''sell''"
    and tk: "tk \<noteq> []" and Q: "0 \<le> Q"
    and empty: "getLots shortLots tk = []" "getLots longLots tk = []"
    and step1: "fifoRow openRow longLots shortLots = (openRow', longLots1, shortLots1)"
    and step2: "fifoRow closeRow longLots1 shortLots1 = (closeRow', longLots2, shortLots2)"
  shows "pnl (trade openRow') = Some 0 \<and>
     pnl (trade closeRow') =
       Some ((P2 - P) * Q * (if pointValue (meta openRow) = 0 then 1 else pointValue (meta openRow))
             - F * Q) \<and>
     getLots longLots2 tk = []"
proof (cases "Q = 0")
  case True
  have "fifoRow openRow longLots shortLots = (setPnl openRow 0, longLots, shortLots)"
    using opn True by (intro fifoRow_missing) auto
  moreover have "fifoRow closeRow longLots1 shortLots1 = (setPnl closeRow 0, longLots1, shortLots1)"
    using cls True by (intro fifoRow_missing) auto
  ultimately show ?thesis using step1 step2 empty True by (auto simp: setPnl_def)
next
  case False
  then have Qpos: "0 < Q" using Q by simp
  let ?pv = "if pointValue (meta openRow) = 0 then 1 else pointValue (meta openRow)"
  let ?lot = "\<lparr>l_qty = Q, price = P, feePerUnit = F, multiplier = ?pv\<rparr>"
  have c1: "closeLots (getLots shortLots tk) Q P False = (0, Q, [])"
    by (simp add: empty closeLots_empty)
  have s1: "fifoRow openRow longLots shortLots =
      (setPnl openRow 0, longLots(tk \<mapsto> [?lot]), shortLots(tk := None))"
    unfolding fifoRow_fill[OF opn(1,2) tk opn(3) False opn(4)]
      fillRow_long[OF opn(6) False c1]
    using Qpos False opn(1,5) empty by (simp add: defaultPnl_def)
  then have st1: "openRow' = setPnl openRow 0" "longLots1 = longLots(tk \<mapsto> [?lot])"
    using step1 by simp_all
  have g: "getLots longLots1 tk = [?lot]" by (simp add: st1 getLots_def)
  have c2: "closeLots (getLots longLots1 tk) Q P2 True = ((P2 - P) * Q * ?pv - F * Q, 0, [])"
    unfolding g using Qpos by (simp add: closeLots_def Let_def)
  have s2: "fifoRow closeRow longLots1 shortLots1 =
      (setPnl closeRow ((P2 - P) * Q * ?pv - F * Q), longLots1(tk := None),
       shortLots1)"
    unfolding fifoRow_fill[OF cls(1,2) tk cls(3) False cls(4)]
      fillRow_short[OF cls(6) False c2]
    using Qpos cls(5) by simp
  then have "closeRow' = setPnl closeRow ((P2 - P) * Q * ?pv - F * Q)"
    "longLots2 = longLots1(tk := None)"
    using step2 by simp_all
  then show ?thesis using st1 by (simp add: setPnl_def getLots_def)
qed

theorem round_trip_witness:
  "pnl (trade (sampleRows ! 0)) = None \<and> ticker (trade (sampleRows ! 0)) = Some ''NQ'' \<and>
   m_qty (meta (sampleRows ! 0)) = Some 2 \<and> fillPrice (meta (sampleRows ! 0)) = Some 100 \<and>
   totalFee (meta (sampleRows ! 0)) = 1 * 2 \<and>
   toLowerCase (m_side (meta (sampleRows ! 0))) = ''long'' \<and>
   toLowerCase (m_side (meta (sampleRow None ''Sell'' 2 (Some 105) 0))) = ''sell'' \<and>
   totalFee (meta (sampleRow None ''Sell'' 2 (Some 105) 0)) = 0 \<and>
   getLots Map.empty ''NQ'' = [] \<and>
   pnl (trade (fst (fifoRow (sampleRows ! 0) Map.empty Map.empty))) = Some 0 \<and>
   pnl (trade (fst (fifoRow (sampleRow None ''Sell'' 2 (Some 105) 0)
        (fst (snd (fifoRow (sampleRows ! 0) Map.empty Map.empty)))
        (snd (snd (fifoRow (sampleRows ! 0) Map.empty Map.empty)))))) = Some 198 \<and>
   getLots (fst (snd (fifoRow (sampleRow None ''Sell'' 2 (Some 105) 0)
        (fst (snd (fifoRow (sampleRows ! 0) Map.empty Map.empty)))
        (snd (snd (fifoRow (sampleRows ! 0) Map.empty Map.empty)))))) ''NQ'' = []"
proof -
  let ?o = "sampleRows ! 0"
  let ?c = "sampleRow None ''Sell'' 2 (Some 105) 0"
  let ?s1 = "fifoRow ?o Map.empty Map.empty"
  let ?s2 = "fifoRow ?c (fst (snd ?s1)) (snd (snd ?s1))"
  have o: "pnl (trade ?o) = None" "ticker (trade ?o) = Some ''NQ''"
    "m_qty (meta ?o) = Some 2" "fillPrice (meta ?o) = Some 100" "totalFee (meta ?o) = 1 * 2"
    "toLowerCase (m_side (meta ?o)) = ''long'' \<or> toLowerCase (m_side (meta ?o)) = ''buy''"
    by (simp_all add: sampleRows_def sampleRow_def sampleTrade_def toLowerCase_def lowerChar_def upperChars_def lowerChars_def)
  have c: "pnl (trade ?c) = None" "ticker (trade ?c) = Some ''NQ''"
    "m_qty (meta ?c) = Some 2" "fillPrice (meta ?c) = Some 105" "totalFee (meta ?c) = 0"
    "toLowerCase (m_side (meta ?c)) = ''short'' \<or> toLowerCase (m_side (meta ?c)) = ''sell''"
    by (simp_all add: sampleRow_def sampleTrade_def toLowerCase_def lowerChar_def upperChars_def lowerChars_def)
  have e: "getLots Map.empty ''NQ'' = []" by (simp add: getLots_def)
  have pv: "pointValue (meta ?o) = 20" by (simp add: sampleRows_def sampleRow_def)
  have "pnl (trade (fst ?s1)) = Some 0 \<and>
     pnl (trade (fst ?s2)) = Some ((105 - 100) * 2 * (if pointValue (meta ?o) = 0 then 1 else pointValue (meta ?o)) - 1 * 2) \<and>
     getLots (fst (snd ?s2)) ''NQ'' = []"
    by (rule round_trip[OF o c _ _ e e, of "fst ?s1" "fst (snd ?s1)" "snd (snd ?s1)"
          "fst ?s2" "fst (snd ?s2)" "snd (snd ?s2)"]) simp_all
  then have r: "pnl (trade (fst ?s1)) = Some 0" "pnl (trade (fst ?s2)) = Some 198"
     "getLots (fst (snd ?s2)) ''NQ'' = []"
    unfolding pv by simp_all
  have s: "toLowerCase (m_side (meta ?o)) = ''long''" "toLowerCase (m_side (meta ?c)) = ''sell''"
    by (simp_all add: sampleRows_def sampleRow_def toLowerCase_def lowerChar_def upperChars_def lowerChars_def)
  show ?thesis using o(1-5) c(5) e r s by simp
qed

text \<open>
  The claim as it is stated asks only for an empty Short queue. In the run over
  \<open>sampleOlderLot\<close> the Short queue of NQ is empty when the second row, a Long fill of 1 at
  100 without fee, is processed, and the third row is a Short fill of 1 at 105 without
  commission. An older lot bought at 50 is still in the Long queue, so the Short fill closes
  that one: its PnL is 1100 and not \<open>(105 - 100) * 1 * 20 - 0 * 1\<close>, and the lot bought
  at 100 stays in the Long queue.
\<close>

theorem round_trip_older_lot_counterexample:
  "getLots (snd (snd (fold fifoStep [0] (sampleOlderLot, Map.empty, Map.empty)))) ''NQ'' = [] \<and>
   ordered (dateParse samplePlatform) sampleOlderLot = [0, 1, 2] \<and>
   sampleOlderLot ! 1 = sampleRow None ''Long'' 1 (Some 100) 0 \<and>
   sampleOlderLot ! 2 = sampleRow None ''Short'' 1 (Some 105) 0 \<and>
   pnl (trade (deriveFifoPnl (dateParse samplePlatform) sampleOlderLot ! 2)) = Some 1100 \<and>
   (1100 :: real) \<noteq> (105 - 100) * 1 * 20 - 0 * 1 \<and>
   getLots (fst (snd (runFifo (dateParse samplePlatform) sampleOlderLot))) ''NQ''
     = [\<lparr>l_qty = 1, price = 100, feePerUnit = 0, multiplier = 20\<rparr>]"
  using sampleOlderLot_run by (simp add: sampleOlderLot_def)

subsection \<open>Fee override\<close>

lemma buildPayload_pnl_future:
  assumes "includesStr (toLowerCase (case type r of None \<Rightarrow> [] | Some t \<Rightarrow> t)) ''future''"
    "qty r = Some q" "pnl r = Some v" "f \<noteq> 0"
  shows "p_pnl (buildPayload u a b f r) = Some (v - f * \<bar>q\<bar>)"
  using assms by (simp add: buildPayload_def Let_def)

lemma buildPayload_pnl_other:
  assumes "\<not> includesStr (toLowerCase (case type r of None \<Rightarrow> [] | Some t \<Rightarrow> t)) ''future''"
  shows "p_pnl (buildPayload u a b f r) = pnl r"
  using assms by (simp add: buildPayload_def Let_def split: option.splits)

lemma sampleLongLots_positive: "lotsPositive sampleLongLots"
  by (auto simp: lotsPositive_def sampleLongLots_def split: if_splits)

text \<open>
  Claim C6. For a row whose type contains \<open>future\<close> (in any case), with numeric quantity
  \<open>q\<close> and numeric PnL \<open>v\<close>, a fee override \<open>f\<close> that is not zero makes the PnL of the
  payload \<open>v - f * |q|\<close>; for a row of another type the PnL of the payload is the PnL of
  the row. The deduction comes on top of the commission that FIFO reconciliation has
  subtracted: for a futures row that reconciliation has processed as a Short fill, the PnL
  of the payload is the matched profit, less the lots' fees per unit, less the share of
  the row's commission, less \<open>f * |q|\<close>.
\<close>

theorem fee_override_additive:
  "(includesStr (toLowerCase (case type r of None \<Rightarrow> [] | Some t \<Rightarrow> t)) ''future'' \<longrightarrow>
      qty r = Some q \<longrightarrow> pnl r = Some v \<longrightarrow> f \<noteq> 0 \<longrightarrow>
      p_pnl (buildPayload u a b f r) = Some (v - f * \<bar>q\<bar>)) \<and>
   (\<not> includesStr (toLowerCase (case type r of None \<Rightarrow> [] | Some t \<Rightarrow> t)) ''future'' \<longrightarrow>
      p_pnl (buildPayload u a b f r) = pnl r) \<and>
   (pnl (trade row) = None \<longrightarrow> ticker (trade row) = Some tk \<longrightarrow> tk \<noteq> [] \<longrightarrow>
    m_qty (meta row) = Some mq \<longrightarrow> 0 < mq \<longrightarrow> fillPrice (meta row) = Some p \<longrightarrow>
    lotsPositive L \<longrightarrow>
    toLowerCase (m_side (meta row)) = ''short'' \<or> toLowerCase (m_side (meta row)) = ''sell'' \<longrightarrow>
    includesStr (toLowerCase (case type (trade row) of None \<Rightarrow> [] | Some t \<Rightarrow> t)) ''future'' \<longrightarrow>
    qty (trade row) = Some q \<longrightarrow> f \<noteq> 0 \<longrightarrow>
    p_pnl (buildPayload u a b f (trade (fst (fifoRow row L S)))) =
      Some ((\<Sum>k<length (getLots L tk). matchedQty (getLots L tk) mq k *
                ((p - price (getLots L tk ! k)) * lotMultiplier (getLots L tk ! k)
                   - feePerUnit (getLots L tk ! k)))
            - totalFee (meta row) * (min mq (sum_list (map l_qty (getLots L tk))) / mq)
            - f * \<bar>q\<bar>))"
proof (intro conjI impI)
  assume a: "pnl (trade row) = None" "ticker (trade row) = Some tk" "tk \<noteq> []"
    "m_qty (meta row) = Some mq" "0 < mq" "fillPrice (meta row) = Some p" "lotsPositive L"
    "toLowerCase (m_side (meta row)) = ''short'' \<or> toLowerCase (m_side (meta row)) = ''sell''"
    and b: "includesStr (toLowerCase (case type (trade row) of None \<Rightarrow> [] | Some t \<Rightarrow> t)) ''future''"
    "qty (trade row) = Some q" "f \<noteq> 0"
  let ?v = "(\<Sum>k<length (getLots L tk). matchedQty (getLots L tk) mq k *
                ((p - price (getLots L tk ! k)) * lotMultiplier (getLots L tk ! k)
                   - feePerUnit (getLots L tk ! k)))
            - totalFee (meta row) * (min mq (sum_list (map l_qty (getLots L tk))) / mq)"
  have "fst (fifoRow row L S) = setPnl row ?v"
    unfolding fifoRow_short_closed[OF a, of S] by simp
  then have t: "type (trade (fst (fifoRow row L S))) = type (trade row)"
    "qty (trade (fst (fifoRow row L S))) = Some q" "pnl (trade (fst (fifoRow row L S))) = Some ?v"
    using b(2) by (simp_all add: setPnl_def)
  show "p_pnl (buildPayload u a b f (trade (fst (fifoRow row L S)))) = Some (?v - f * \<bar>q\<bar>)"
    by (rule buildPayload_pnl_future[OF _ t(2,3) b(3)]) (simp add: t(1) b(1))
qed (simp_all add: buildPayload_pnl_future buildPayload_pnl_other)

theorem fee_override_additive_witness:
  "includesStr (toLowerCase (case type (trade (sampleRows ! 1)) of None \<Rightarrow> [] | Some t \<Rightarrow> t)) ''future'' \<and>
   pnl (trade (sampleRows ! 1)) = None \<and> ticker (trade (sampleRows ! 1)) = Some ''NQ'' \<and>
   m_qty (meta (sampleRows ! 1)) = Some 2 \<and> fillPrice (meta (sampleRows ! 1)) = Some 105 \<and>
   lotsPositive sampleLongLots \<and>
   toLowerCase (m_side (meta (sampleRows ! 1))) = ''short'' \<and>
   qty (trade (sampleRows ! 1)) = Some 2 \<and>
   p_pnl (buildPayload ''user'' ''acct'' ''Tradovate'' (3 / 2)
            (trade (fst (fifoRow (sampleRows ! 1) sampleLongLots Map.empty)))) = Some 193 \<and>
   p_pnl (buildPayload ''user'' ''acct'' ''Tradovate'' (3 / 2)
            (sampleTrade None ''Short'' (Some 2) (Some 196))) = Some 193 \<and>
   \<not> includesStr (toLowerCase (case type ((sampleTrade None ''Short'' (Some 2) (Some 196))\<lparr>type := Some ''Stock''\<rparr>)
         of None \<Rightarrow> [] | Some t \<Rightarrow> t)) ''future'' \<and>
   p_pnl (buildPayload ''user'' ''acct'' ''Tradovate'' (3 / 2)
            ((sampleTrade None ''Short'' (Some 2) (Some 196))\<lparr>type := Some ''Stock''\<rparr>)) = Some 196"
proof -
  let ?row = "sampleRows ! 1"
  let ?t = "sampleTrade None ''Short'' (Some 2) (Some 196)"
  let ?s = "?t\<lparr>type := Some ''Stock''\<rparr>"
  have fut: "includesStr (toLowerCase (case type (trade ?row) of None \<Rightarrow> [] | Some t \<Rightarrow> t)) ''future''"
    by (simp add: sampleRows_def sampleRow_def sampleTrade_def toLowerCase_def lowerChar_def upperChars_def lowerChars_def)
  have h: "pnl (trade ?row) = None" "ticker (trade ?row) = Some ''NQ''"
    "m_qty (meta ?row) = Some 2" "fillPrice (meta ?row) = Some 105" "qty (trade ?row) = Some 2"
    "totalFee (meta ?row) = 2"
    by (simp_all add: sampleRows_def sampleRow_def sampleTrade_def)
  have sd: "toLowerCase (m_side (meta ?row)) = ''short''"
    by (simp add: sampleRows_def sampleRow_def toLowerCase_def lowerChar_def upperChars_def lowerChars_def)
  have g: "getLots sampleLongLots ''NQ'' = [\<lparr>l_qty = 2, price = 100, feePerUnit = 1, multiplier = 20\<rparr>]"
    by (simp add: getLots_def sampleLongLots_def)
  have futt: "includesStr (toLowerCase (case type ?t of None \<Rightarrow> [] | Some t \<Rightarrow> t)) ''future''"
    "qty ?t = Some 2" "pnl ?t = Some 196"
    by (simp_all add: sampleTrade_def toLowerCase_def lowerChar_def upperChars_def lowerChars_def)
  have nofut: "\<not> includesStr (toLowerCase (case type ?s of None \<Rightarrow> [] | Some t \<Rightarrow> t)) ''future''"
    "pnl ?s = Some 196"
    by (simp_all add: sampleTrade_def toLowerCase_def lowerChar_def upperChars_def lowerChars_def)
  note w = fee_override_additive[of ?t 2 196 "3 / 2" "''user''" "''acct''" "''Tradovate''"
      ?row "''NQ''" 2 105 sampleLongLots Map.empty]
  note w2 = fee_override_additive[of ?s 2 196 "3 / 2" "''user''" "''acct''" "''Tradovate''"
      ?row "''NQ''" 2 105 sampleLongLots Map.empty]
  have r1: "p_pnl (buildPayload ''user'' ''acct'' ''Tradovate'' (3 / 2) ?t) = Some 193"
    using w futt by simp
  have r2: "p_pnl (buildPayload ''user'' ''acct'' ''Tradovate'' (3 / 2) ?s) = Some 196"
    using w2 nofut by simp
  have "p_pnl (buildPayload ''user'' ''acct'' ''Tradovate'' (3 / 2)
            (trade (fst (fifoRow ?row sampleLongLots Map.empty)))) =
      Some ((\<Sum>k<length (getLots sampleLongLots ''NQ''). matchedQty (getLots sampleLongLots ''NQ'') 2 k *
                ((105 - price (getLots sampleLongLots ''NQ'' ! k)) * lotMultiplier (getLots sampleLongLots ''NQ'' ! k)
                   - feePerUnit (getLots sampleLongLots ''NQ'' ! k)))
            - totalFee (meta ?row) * (min 2 (sum_list (map l_qty (getLots sampleLongLots ''NQ''))) / 2)
            - 3 / 2 * \<bar>2\<bar>)"
    using w h fut sd sampleLongLots_positive by simp
  then have r3: "p_pnl (buildPayload ''user'' ''acct'' ''Tradovate'' (3 / 2)
            (trade (fst (fifoRow ?row sampleLongLots Map.empty)))) = Some 193"
    unfolding g h(6) by (simp add: matchedQty_def lotMultiplier_def)
  show ?thesis using fut h(1-5) sd sampleLongLots_positive r1 r2 r3 nofut(1) by simp
qed


subsection \<open>The records that are inserted\<close>

lemma dedupRows_subset:
  "dedupRows pf mk keys rs = Inr (rows, keys') \<Longrightarrow> set rows \<subseteq> mk ` set rs"
proof (induction rs arbitrary: keys rows keys')
  case Nil
  then show ?case by simp
next
  case (Cons r rs)
  then show ?case
    by (fastforce simp: Let_def split: sum.splits if_splits prod.splits)
qed

lemma filterByDate_subset: "set (filterByDate pf d parsed) \<subseteq> set parsed"
  by (auto simp: filterByDate_def)

lemma handleImport_rows:
  assumes "handleImport pf u a b f d ex parsed = InsertRows rows"
  shows "set rows \<subseteq> buildPayload u a b f ` set parsed"
proof -
  from assms obtain keys keys' where
    "dedupRows pf (buildPayload u a b f) keys (filterByDate pf d parsed) = Inr (rows, keys')"
    by (auto simp: handleImport_def Let_def split: if_splits sum.splits prod.splits)
  from dedupRows_subset[OF this] filterByDate_subset[of pf d parsed] show ?thesis by blast
qed

lemma payloadObject_keys:
  "map fst (payloadObject p) =
     [''user_id'', ''entry_ts'', ''side'', ''ticker'', ''type'', ''qty'', ''pnl'', ''change'',
      ''source_account'', ''source_broker'']"
  by (simp add: payloadObject_def)

lemma buildPayload_pnl_present: "pnl r \<noteq> None \<Longrightarrow> p_pnl (buildPayload u a b f r) \<noteq> None"
  by (auto simp: buildPayload_def Let_def)

lemma sample_import:
  "handleImport samplePlatform ''user'' ''acct'' ''Tradovate'' 0 [] []
     [sampleTrade (Some ''2024-01-03T10:00:00.000Z'') ''Short'' (Some 2) (Some 196)]
   = InsertRows [buildPayload ''user'' ''acct'' ''Tradovate'' 0
       (sampleTrade (Some ''2024-01-03T10:00:00.000Z'') ''Short'' (Some 2) (Some 196))]"
  by (simp add: handleImport_def filterByDate_def Let_def buildTradeKey_def payloadKeyArg_def
      buildPayload_def sampleTrade_def samplePlatform_def orNull_def)

text \<open>
  Claim C8, as the code has it. Every record that \<open>handleImport\<close> submits to the storage
  insert has exactly the properties \<open>user_id\<close>, \<open>entry_ts\<close>, \<open>side\<close>, \<open>ticker\<close>,
  \<open>type\<close>, \<open>qty\<close>, \<open>pnl\<close>, \<open>change\<close>, \<open>source_account\<close> and \<open>source_broker\<close>:
  the owner, the account and the broker of the import, and the timestamp, side, ticker and
  type (null when empty), the quantity and the change of one of the parsed rows; the PnL is
  a number when the PnL of that row is one.
\<close>

theorem inserted_record_fields:
  assumes "handleImport pf u a b f d ex parsed = InsertRows rows"
  shows "\<forall>p \<in> set rows.
     map fst (payloadObject p) =
       [''user_id'', ''entry_ts'', ''side'', ''ticker'', ''type'', ''qty'', ''pnl'', ''change'',
        ''source_account'', ''source_broker''] \<and>
     map_of (payloadObject p) ''user_id'' = Some (JsString u) \<and>
     map_of (payloadObject p) ''source_account'' = Some (JsString a) \<and>
     map_of (payloadObject p) ''source_broker'' = Some (JsString b) \<and>
     (\<exists>r \<in> set parsed.
        map_of (payloadObject p) ''entry_ts'' = Some (jsStringOrNull (orNull (entry_ts r))) \<and>
        map_of (payloadObject p) ''side'' = Some (jsStringOrNull (orNull (side r))) \<and>
        map_of (payloadObject p) ''ticker'' = Some (jsStringOrNull (orNull (ticker r))) \<and>
        map_of (payloadObject p) ''type'' = Some (jsStringOrNull (orNull (type r))) \<and>
        map_of (payloadObject p) ''qty'' = Some (jsNumberOrNull (qty r)) \<and>
        map_of (payloadObject p) ''change'' = Some (jsStringOrNull (change r)) \<and>
        (pnl r \<noteq> None \<longrightarrow> (\<exists>v. map_of (payloadObject p) ''pnl'' = Some (JsNumber v))))"
proof
  fix p assume "p \<in> set rows"
  with handleImport_rows[OF assms] obtain r where r: "r \<in> set parsed" "p = buildPayload u a b f r"
    by auto
  have pn: "pnl r \<noteq> None \<longrightarrow> (\<exists>v. jsNumberOrNull (p_pnl p) = JsNumber v)"
    using buildPayload_pnl_present[of r u a b f] r(2) by (auto simp: jsNumberOrNull_def)
  have "map_of (payloadObject p) ''entry_ts'' = Some (jsStringOrNull (orNull (entry_ts r))) \<and>
        map_of (payloadObject p) ''side'' = Some (jsStringOrNull (orNull (side r))) \<and>
        map_of (payloadObject p) ''ticker'' = Some (jsStringOrNull (orNull (ticker r))) \<and>
        map_of (payloadObject p) ''type'' = Some (jsStringOrNull (orNull (type r))) \<and>
        map_of (payloadObject p) ''qty'' = Some (jsNumberOrNull (qty r)) \<and>
        map_of (payloadObject p) ''change'' = Some (jsStringOrNull (change r)) \<and>
        (pnl r \<noteq> None \<longrightarrow> (\<exists>v. map_of (payloadObject p) ''pnl'' = Some (JsNumber v)))"
    using pn by (simp add: payloadObject_def r(2) buildPayload_def Let_def)
  moreover have "map_of (payloadObject p) ''user_id'' = Some (JsString u) \<and>
     map_of (payloadObject p) ''source_account'' = Some (JsString a) \<and>
     map_of (payloadObject p) ''source_broker'' = Some (JsString b)"
    by (simp add: payloadObject_def r(2) buildPayload_def Let_def)
  ultimately show "map fst (payloadObject p) =
       [''user_id'', ''entry_ts'', ''side'', ''ticker'', ''type'', ''qty'', ''pnl'', ''change'',
        ''source_account'', ''source_broker''] \<and>
     map_of (payloadObject p) ''user_id'' = Some (JsString u) \<and>
     map_of (payloadObject p) ''source_account'' = Some (JsString a) \<and>
     map_of (payloadObject p) ''source_broker'' = Some (JsString b) \<and>
     (\<exists>r \<in> set parsed.
        map_of (payloadObject p) ''entry_ts'' = Some (jsStringOrNull (orNull (entry_ts r))) \<and>
        map_of (payloadObject p) ''side'' = Some (jsStringOrNull (orNull (side r))) \<and>
        map_of (payloadObject p) ''ticker'' = Some (jsStringOrNull (orNull (ticker r))) \<and>
        map_of (payloadObject p) ''type'' = Some (jsStringOrNull (orNull (type r))) \<and>
        map_of (payloadObject p) ''qty'' = Some (jsNumberOrNull (qty r)) \<and>
        map_of (payloadObject p) ''change'' = Some (jsStringOrNull (change r)) \<and>
        (pnl r \<noteq> None \<longrightarrow> (\<exists>v. map_of (payloadObject p) ''pnl'' = Some (JsNumber v))))"
    using r(1) payloadObject_keys[of p] by blast
qed

theorem inserted_record_fields_witness:
  "handleImport samplePlatform ''user'' ''acct'' ''Tradovate'' 0 [] []
     [sampleTrade (Some ''2024-01-03T10:00:00.000Z'') ''Short'' (Some 2) (Some 196)]
   = InsertRows [buildPayload ''user'' ''acct'' ''Tradovate'' 0
       (sampleTrade (Some ''2024-01-03T10:00:00.000Z'') ''Short'' (Some 2) (Some 196))] \<and>
   map_of (payloadObject (buildPayload ''user'' ''acct'' ''Tradovate'' 0
       (sampleTrade (Some ''2024-01-03T10:00:00.000Z'') ''Short'' (Some 2) (Some 196)))) ''source_account''
     = Some (JsString ''acct'') \<and>
   map_of (payloadObject (buildPayload ''user'' ''acct'' ''Tradovate'' 0
       (sampleTrade (Some ''2024-01-03T10:00:00.000Z'') ''Short'' (Some 2) (Some 196)))) ''pnl''
     = Some (JsNumber 196)"
proof -
  let ?t = "sampleTrade (Some ''2024-01-03T10:00:00.000Z'') ''Short'' (Some 2) (Some 196)"
  let ?p = "buildPayload ''user'' ''acct'' ''Tradovate'' 0 ?t"
  from inserted_record_fields[OF sample_import]
  have "map_of (payloadObject ?p) ''source_account'' = Some (JsString ''acct'') \<and>
    (\<exists>r \<in> set [?t]. pnl r \<noteq> None \<longrightarrow> (\<exists>v. map_of (payloadObject ?p) ''pnl'' = Some (JsNumber v)))"
    by auto
  moreover have "pnl ?t \<noteq> None" by (simp add: sampleTrade_def)
  ultimately have "map_of (payloadObject ?p) ''source_account'' = Some (JsString ''acct'')"
    "\<exists>v. map_of (payloadObject ?p) ''pnl'' = Some (JsNumber v)" by auto
  moreover have "map_of (payloadObject ?p) ''pnl'' = Some (JsNumber 196)"
    by (simp add: payloadObject_def buildPayload_def Let_def sampleTrade_def jsNumberOrNull_def)
  ultimately show ?thesis using sample_import by simp
qed


text \<open>
  The claim as it is stated also lists a date and a time among the fields of the inserted
  record. The record of the sample import has neither property.
\<close>

theorem inserted_record_no_date_counterexample:
  "handleImport samplePlatform ''user'' ''acct'' ''Tradovate'' 0 [] []
     [sampleTrade (Some ''2024-01-03T10:00:00.000Z'') ''Short'' (Some 2) (Some 196)]
   = InsertRows [buildPayload ''user'' ''acct'' ''Tradovate'' 0
       (sampleTrade (Some ''2024-01-03T10:00:00.000Z'') ''Short'' (Some 2) (Some 196))] \<and>
   map_of (payloadObject (buildPayload ''user'' ''acct'' ''Tradovate'' 0
       (sampleTrade (Some ''2024-01-03T10:00:00.000Z'') ''Short'' (Some 2) (Some 196)))) ''date'' = None \<and>
   map_of (payloadObject (buildPayload ''user'' ''acct'' ''Tradovate'' 0
       (sampleTrade (Some ''2024-01-03T10:00:00.000Z'') ''Short'' (Some 2) (Some 196)))) ''time'' = None"
  using sample_import by (simp add: payloadObject_def)

subsection \<open>Field resolution\<close>

lemma trim_Nil [simp]: "trim [] = []"
  by (simp add: trim_def)

lemma find_exact: "x \<in> set xs \<Longrightarrow> List.find (\<lambda>k. k = x) xs = Some x"
  by (induction xs) auto

lemma matcherValue_iff:
  "matcherValue rec m = Some v \<longleftrightarrow>
     (\<exists>k raw. List.find (matcherPredicate m) (map fst rec) = Some k \<and> k \<noteq> [] \<and>
        map_of rec k = Some raw \<and> trim raw \<noteq> [] \<and> v = trim raw)"
  by (auto simp: matcherValue_def Let_def split: option.splits if_splits)

lemma findColumnValue_None:
  "findColumnValue rec ms = None \<longleftrightarrow> (\<forall>m \<in> set ms. matcherValue rec m = None)"
  by (induction ms) (auto split: option.splits)

lemma findColumnValue_Some:
  "findColumnValue rec ms = Some v \<longleftrightarrow>
     (\<exists>i<length ms. matcherValue rec (ms ! i) = Some v \<and>
        (\<forall>j<i. matcherValue rec (ms ! j) = None))"
proof (induction ms)
  case Nil
  then show ?case by simp
next
  case (Cons m ms)
  show ?case
  proof (cases "matcherValue rec m")
    case None
    have "(\<exists>i<length (m # ms). matcherValue rec ((m # ms) ! i) = Some v \<and>
            (\<forall>j<i. matcherValue rec ((m # ms) ! j) = None))
        \<longleftrightarrow> (\<exists>i<length ms. matcherValue rec (ms ! i) = Some v \<and>
            (\<forall>j<i. matcherValue rec (ms ! j) = None))" (is "?A \<longleftrightarrow> ?B")
    proof
      assume ?A
      then obtain i where i: "i < length (m # ms)" "matcherValue rec ((m # ms) ! i) = Some v"
        "\<forall>j<i. matcherValue rec ((m # ms) ! j) = None" by blast
      with None obtain i' where i': "i = Suc i'" by (cases i) auto
      have "\<forall>j<i'. matcherValue rec (ms ! j) = None"
      proof (intro allI impI)
        fix j assume "j < i'"
        then have "Suc j < i" using i' by simp
        with i(3) have "matcherValue rec ((m # ms) ! Suc j) = None" by blast
        then show "matcherValue rec (ms ! j) = None" by simp
      qed
      with i i' show ?B by auto
    next
      assume ?B
      then obtain i where i: "i < length ms" "matcherValue rec (ms ! i) = Some v"
        "\<forall>j<i. matcherValue rec (ms ! j) = None" by blast
      have "\<forall>j<Suc i. matcherValue rec ((m # ms) ! j) = None"
      proof (intro allI impI)
        fix j assume "j < Suc i"
        then show "matcherValue rec ((m # ms) ! j) = None"
          using None i(3) by (cases j) auto
      qed
      with i show ?A by (intro exI[of _ "Suc i"]) simp
    qed
    with None Cons.IH show ?thesis by simp
  next
    case (Some w)
    have "(\<exists>i<length (m # ms). matcherValue rec ((m # ms) ! i) = Some v \<and>
            (\<forall>j<i. matcherValue rec ((m # ms) ! j) = None)) \<longleftrightarrow> w = v" (is "?A \<longleftrightarrow> _")
    proof
      assume ?A
      then obtain i where i: "matcherValue rec ((m # ms) ! i) = Some v"
        "\<forall>j<i. matcherValue rec ((m # ms) ! j) = None" by blast
      have "i = 0"
      proof (rule ccontr)
        assume "i \<noteq> 0"
        then have "0 < i" by simp
        with i(2) have "matcherValue rec ((m # ms) ! 0) = None" by blast
        with Some show False by simp
      qed
      with i(1) Some show "w = v" by simp
    next
      assume "w = v"
      with Some show ?A by (intro exI[of _ 0]) simp
    qed
    with Some show ?thesis by simp
  qed
qed

lemma quantity_precedence:
  assumes "map_of rec ''qty'' = Some a" "trim a \<noteq> []"
  shows "findColumnValue rec quantityMatchers = Some (trim a)"
proof -
  have "''qty'' \<in> set (map fst rec)" using assms(1) by (auto dest: map_of_SomeD intro: rev_image_eqI)
  then have "List.find (matcherPredicate (Exact ''qty'')) (map fst rec) = Some ''qty''"
    using find_exact[of "''qty''" "map fst rec"] by (simp add: fun_eq_iff[symmetric] cong: find_cong)
  then have "matcherValue rec (Exact ''qty'') = Some (trim a)"
    using assms by (auto simp: matcherValue_def)
  then show ?thesis by (simp add: quantityMatchers_def)
qed

text \<open>
  Claim C5, as the code has it. The matchers are tried in the order of the list. A matcher
  yields a value when the first column that it matches, in the order of the record's columns,
  has a name that is not empty and a content that is not empty after trimming; the value is
  the trimmed content. \<open>findColumnValue\<close> returns the value of the first matcher that
  yields one, and nothing when no matcher yields a value. For a record in which \<open>qty\<close> and
  \<open>filled_qty\<close> both have content, the quantity matchers give the trimmed content of
  \<open>qty\<close>, wherever the two columns are.
\<close>

theorem findColumnValue_first_matcher:
  "(findColumnValue rec ms = Some v \<longleftrightarrow>
      (\<exists>i<length ms. matcherValue rec (ms ! i) = Some v \<and>
         (\<forall>j<i. matcherValue rec (ms ! j) = None))) \<and>
   (findColumnValue rec ms = None \<longleftrightarrow> (\<forall>m \<in> set ms. matcherValue rec m = None)) \<and>
   (matcherValue rec m = Some v \<longleftrightarrow>
      (\<exists>k raw. List.find (matcherPredicate m) (map fst rec) = Some k \<and> k \<noteq> [] \<and>
         map_of rec k = Some raw \<and> trim raw \<noteq> [] \<and> v = trim raw)) \<and>
   (map_of rec ''qty'' = Some a \<and> trim a \<noteq> [] \<and>
    map_of rec ''filled_qty'' = Some b \<and> trim b \<noteq> [] \<longrightarrow>
      findColumnValue rec quantityMatchers = Some (trim a))"
  using findColumnValue_Some[of rec ms v] findColumnValue_None[of rec ms]
    matcherValue_iff[of rec m v] quantity_precedence[of rec a]
  by blast

theorem findColumnValue_first_matcher_witness:
  "map_of [(''filled_qty'', ''3''), (''qty'', '' 2 '')] ''qty'' = Some '' 2 '' \<and> trim '' 2 '' \<noteq> [] \<and>
   map_of [(''filled_qty'', ''3''), (''qty'', '' 2 '')] ''filled_qty'' = Some ''3'' \<and> trim ''3'' \<noteq> [] \<and>
   findColumnValue [(''filled_qty'', ''3''), (''qty'', '' 2 '')] quantityMatchers = Some ''2'' \<and>
   (0::nat) < length quantityMatchers \<and>
   matcherValue [(''filled_qty'', ''3''), (''qty'', '' 2 '')] (quantityMatchers ! 0) = Some ''2''"
proof -
  let ?rec = "[(''filled_qty'', ''3''), (''qty'', '' 2 '')]"
  have h: "map_of ?rec ''qty'' = Some '' 2 ''" "trim '' 2 '' \<noteq> []"
    "map_of ?rec ''filled_qty'' = Some ''3''" "trim ''3'' \<noteq> []"
    by (simp_all add: trim_def isSpace_def)
  have t: "trim '' 2 '' = ''2''" by (simp add: trim_def isSpace_def)
  from findColumnValue_first_matcher[of ?rec quantityMatchers "''2''" "quantityMatchers ! 0" "'' 2 ''" "''3''"] h
  have r: "findColumnValue ?rec quantityMatchers = Some ''2''" unfolding t by blast
  have "matcherValue ?rec (quantityMatchers ! 0) = Some ''2''"
    by (simp add: quantityMatchers_def matcherValue_def trim_def isSpace_def)
  with h r show ?thesis by (simp add: quantityMatchers_def)
qed


text \<open>
  The claim as it is stated lets a matcher win when any column that it matches has content.
  In the record below the last quantity matcher matches \<open>order_qty\<close>, which is empty, and
  \<open>exec_qty\<close>, which holds \<open>5\<close>: only the first of the two is looked at, and nothing
  is returned.
\<close>

theorem findColumnValue_later_column_counterexample:
  "findColumnValue [(''order_qty'', ''''), (''exec_qty'', ''5'')] quantityMatchers = None \<and>
   quantityMatchers ! 7 = Predicate qtyToken \<and>
   matcherPredicate (Predicate qtyToken) ''exec_qty'' \<and>
   map_of [(''order_qty'', ''''), (''exec_qty'', ''5'')] ''exec_qty'' = Some ''5'' \<and>
   trim ''5'' = ''5''"
  by (simp add: quantityMatchers_def matcherValue_def qtyToken_def trim_def isSpace_def)

subsection \<open>The dedup gate\<close>

lemma dedupRows_keys:
  "dedupRows pf mk keys rs = Inr (rows, keys') \<Longrightarrow>
     keys' = keys \<union> {k. \<exists>p \<in> set rows. buildTradeKey pf (payloadKeyArg p) = Inr k} \<and>
     (\<forall>p \<in> set rows. \<exists>k. buildTradeKey pf (payloadKeyArg p) = Inr k \<and> k \<notin> keys) \<and>
     (\<forall>r \<in> set rs. \<exists>k. buildTradeKey pf (payloadKeyArg (mk r)) = Inr k \<and> k \<in> keys')"
proof (induction rs arbitrary: keys rows keys')
  case Nil
  then show ?case by simp
next
  case (Cons r rs)
  from Cons.prems obtain key where key: "buildTradeKey pf (payloadKeyArg (mk r)) = Inr key"
    by (auto simp: Let_def split: sum.splits)
  show ?case
  proof (cases "key \<in> keys")
    case True
    then have "dedupRows pf mk keys rs = Inr (rows, keys')"
      using Cons.prems key by (simp add: Let_def)
    from Cons.IH[OF this] show ?thesis using key True by auto
  next
    case False
    then obtain rows' where r: "dedupRows pf mk (insert key keys) rs = Inr (rows', keys')"
      "rows = mk r # rows'"
      using Cons.prems key by (auto simp: Let_def split: sum.splits)
    from Cons.IH[OF r(1)] show ?thesis using key False r(2) by auto
  qed
qed

lemma dedupRows_all_known:
  "\<forall>r \<in> set rs. \<exists>k. buildTradeKey pf (payloadKeyArg (mk r)) = Inr k \<and> k \<in> keys \<Longrightarrow>
   dedupRows pf mk keys rs = Inr ([], keys)"
  by (induction rs) (auto simp: Let_def)

lemma existingKeysOf_append:
  "existingKeysOf pf xs = Inr ka \<Longrightarrow> existingKeysOf pf ys = Inr kb \<Longrightarrow>
   existingKeysOf pf (xs @ ys) = Inr (ka \<union> kb)"
  by (induction xs arbitrary: ka) (auto split: sum.splits)

lemma existingKeysOf_payloads:
  "\<forall>p \<in> set rows. \<exists>k. buildTradeKey pf (payloadKeyArg p) = Inr k \<Longrightarrow>
   existingKeysOf pf (map payloadKeyArg rows) =
     Inr {k. \<exists>p \<in> set rows. buildTradeKey pf (payloadKeyArg p) = Inr k}"
  by (induction rows) (auto split: sum.splits)

lemma handleImport_again:
  assumes "handleImport pf u a b f d existing parsed = InsertRows rows"
  shows "handleImport pf u a b f d (existing @ map payloadKeyArg rows) parsed = AllTradesExist"
proof -
  let ?fr = "filterByDate pf d parsed"
  from assms have ne: "parsed \<noteq> []" "?fr \<noteq> []"
    by (auto simp: handleImport_def Let_def split: if_splits)
  from assms ne obtain keys where k: "existingKeysOf pf existing = Inr keys"
    by (auto simp: handleImport_def Let_def split: sum.splits)
  from assms ne k obtain keys' where
    dd: "dedupRows pf (buildPayload u a b f) keys ?fr = Inr (rows, keys')"
    by (auto simp: handleImport_def Let_def split: sum.splits prod.splits if_splits)
  note dk = dedupRows_keys[OF dd]
  have "existingKeysOf pf (map payloadKeyArg rows) =
     Inr {k. \<exists>p \<in> set rows. buildTradeKey pf (payloadKeyArg p) = Inr k}"
    using dk by (intro existingKeysOf_payloads) blast
  from existingKeysOf_append[OF k this] dk
  have k2: "existingKeysOf pf (existing @ map payloadKeyArg rows) = Inr keys'" by simp
  have "dedupRows pf (buildPayload u a b f) keys' ?fr = Inr ([], keys')"
    using dk by (intro dedupRows_all_known) blast
  with k2 ne show ?thesis by (simp add: handleImport_def Let_def)
qed

lemma sample_key:
  "buildTradeKey samplePlatform (payloadKeyArg (buildPayload ''user'' ''acct'' ''Tradovate'' 0
       (sampleTrade (Some ''2024-01-03T10:00:00.000Z'') ''Short'' (Some 2) (Some 196))))
   = Inr ''2024-01-03t10:00:00.000z|nq|short|futures|2.0000|196.0000|''"
  by (simp add: buildTradeKey_def payloadKeyArg_def buildPayload_def sampleTrade_def
      samplePlatform_def orNull_def Let_def normalizeString_def normalizeNumber_def
      toLowerCase_def lowerChar_def upperChars_def lowerChars_def)

lemma sample_key_fee:
  "buildTradeKey samplePlatform (payloadKeyArg (buildPayload ''user'' ''acct'' ''Tradovate'' (3 / 2)
       (sampleTrade (Some ''2024-01-03T10:00:00.000Z'') ''Short'' (Some 2) (Some 196))))
   = Inr ''2024-01-03t10:00:00.000z|nq|short|futures|2.0000|193.0000|''"
  by (simp add: buildTradeKey_def payloadKeyArg_def buildPayload_def sampleTrade_def
      samplePlatform_def orNull_def Let_def normalizeString_def normalizeNumber_def
      toLowerCase_def lowerChar_def upperChars_def lowerChars_def)

lemma sample_key_first:
  "buildTradeKey samplePlatform (payloadKeyArg (buildPayload ''user'' ''acct'' ''Tradovate'' 0
       (sampleTrade (Some ''2024-01-01T10:00:00.000Z'') ''Long'' (Some 2) (Some 0))))
   = Inr ''2024-01-01t10:00:00.000z|nq|long|futures|2.0000|0.0000|''"
  by (simp add: buildTradeKey_def payloadKeyArg_def buildPayload_def sampleTrade_def
      samplePlatform_def orNull_def Let_def normalizeString_def normalizeNumber_def
      toLowerCase_def lowerChar_def upperChars_def lowerChars_def)

lemma handleImport_inserts:
  assumes "parsed \<noteq> []" "filterByDate pf d parsed = fr" "fr \<noteq> []"
    "existingKeysOf pf ex = Inr keys"
    "dedupRows pf (buildPayload u a b f) keys fr = Inr (rows, keys')" "rows \<noteq> []"
  shows "handleImport pf u a b f d ex parsed = InsertRows rows"
  using assms by (simp add: handleImport_def Let_def del: dedupRows.simps)

text \<open>
  Claim C4, as the code has it. The key of a trade is the join, with \<open>|\<close>, of the
  lower-cased ISO instant of its timestamp (empty without timestamp), its lower-cased
  ticker, side and type, its quantity and PnL with four decimals (empty when absent) and its
  lower-cased change. A row whose key is in the key set, be it the key of a stored trade or
  of a row admitted earlier in the batch, is dropped and the set stays as it is; otherwise
  the key is added to the set for the rest of the batch and the row is kept. When the gate
  has passed over a batch, the key set is the seed together with the keys of the admitted
  rows, the keys of the admitted rows are not in the seed, the key of every row of the batch
  is in the set, and the gate admits no row of the same batch from this set or a larger one.
  An import that has inserted rows, repeated for the same statement, account and broker
  with the same fee override and the same cutoff date once the storage query also returns
  the inserted rows, ends with the message that all trades exist already.
\<close>

theorem dedup_gate_idempotent:
  "(k_entry_ts t = Some e \<and> e \<noteq> [] \<and> dateParse pf e = Some ms \<longrightarrow>
      buildTradeKey pf t =
        Inr (join ''|''
          [toLowerCase (toISOString pf ms), normalizeString (k_ticker t),
           normalizeString (k_side t), normalizeString (k_type t),
           normalizeNumber pf (k_qty t), normalizeNumber pf (k_pnl t),
           normalizeString (k_change t)])) \<and>
   (k_entry_ts t = None \<or> k_entry_ts t = Some [] \<longrightarrow>
      buildTradeKey pf t =
        Inr (join ''|''
          [[], normalizeString (k_ticker t),
           normalizeString (k_side t), normalizeString (k_type t),
           normalizeNumber pf (k_qty t), normalizeNumber pf (k_pnl t),
           normalizeString (k_change t)])) \<and>
   (buildTradeKey pf (payloadKeyArg (mk r)) = Inr key \<longrightarrow>
      dedupRows pf mk keys (r # rs) =
        (if key \<in> keys then dedupRows pf mk keys rs
         else (case dedupRows pf mk (insert key keys) rs of
                 Inl err \<Rightarrow> Inl err
               | Inr (rows, ks) \<Rightarrow> Inr (mk r # rows, ks)))) \<and>
   (dedupRows pf mk keys rs = Inr (rows, keys') \<longrightarrow>
      keys' = keys \<union> {k. \<exists>p \<in> set rows. buildTradeKey pf (payloadKeyArg p) = Inr k} \<and>
      (\<forall>p \<in> set rows. \<exists>k. buildTradeKey pf (payloadKeyArg p) = Inr k \<and> k \<notin> keys) \<and>
      (\<forall>r \<in> set rs. \<exists>k. buildTradeKey pf (payloadKeyArg (mk r)) = Inr k \<and> k \<in> keys') \<and>
      (\<forall>keys''. keys' \<subseteq> keys'' \<longrightarrow> dedupRows pf mk keys'' rs = Inr ([], keys''))) \<and>
   (handleImport pf u a b f d existing parsed = InsertRows rows \<longrightarrow>
      handleImport pf u a b f d (existing @ map payloadKeyArg rows) parsed = AllTradesExist)"
proof (intro conjI impI)
  assume "k_entry_ts t = Some e \<and> e \<noteq> [] \<and> dateParse pf e = Some ms"
  then show "buildTradeKey pf t =
        Inr (join ''|''
          [toLowerCase (toISOString pf ms), normalizeString (k_ticker t),
           normalizeString (k_side t), normalizeString (k_type t),
           normalizeNumber pf (k_qty t), normalizeNumber pf (k_pnl t),
           normalizeString (k_change t)])"
    by (simp add: buildTradeKey_def normalizeString_def)
next
  assume "k_entry_ts t = None \<or> k_entry_ts t = Some []"
  then show "buildTradeKey pf t =
        Inr (join ''|''
          [[], normalizeString (k_ticker t),
           normalizeString (k_side t), normalizeString (k_type t),
           normalizeNumber pf (k_qty t), normalizeNumber pf (k_pnl t),
           normalizeString (k_change t)])"
    by (auto simp: buildTradeKey_def normalizeString_def toLowerCase_def)
next
  assume "buildTradeKey pf (payloadKeyArg (mk r)) = Inr key"
  then show "dedupRows pf mk keys (r # rs) =
        (if key \<in> keys then dedupRows pf mk keys rs
         else (case dedupRows pf mk (insert key keys) rs of
                 Inl err \<Rightarrow> Inl err
               | Inr (rows, ks) \<Rightarrow> Inr (mk r # rows, ks)))"
    by (simp add: Let_def)
next
  assume d: "dedupRows pf mk keys rs = Inr (rows, keys')"
  note dk = dedupRows_keys[OF d]
  show "keys' = keys \<union> {k. \<exists>p \<in> set rows. buildTradeKey pf (payloadKeyArg p) = Inr k}"
    using dk by blast
  show "\<forall>p \<in> set rows. \<exists>k. buildTradeKey pf (payloadKeyArg p) = Inr k \<and> k \<notin> keys"
    using dk by blast
  show "\<forall>r \<in> set rs. \<exists>k. buildTradeKey pf (payloadKeyArg (mk r)) = Inr k \<and> k \<in> keys'"
    using dk by blast
  show "\<forall>keys''. keys' \<subseteq> keys'' \<longrightarrow> dedupRows pf mk keys'' rs = Inr ([], keys'')"
  proof (intro allI impI)
    fix keys'' assume "keys' \<subseteq> keys''"
    then show "dedupRows pf mk keys'' rs = Inr ([], keys'')"
      using dk by (intro dedupRows_all_known) blast
  qed
next
  assume "handleImport pf u a b f d existing parsed = InsertRows rows"
  then show "handleImport pf u a b f d (existing @ map payloadKeyArg rows) parsed = AllTradesExist"
    by (rule handleImport_again)
qed

theorem dedup_gate_idempotent_witness:
  "buildTradeKey samplePlatform
       \<lparr>k_entry_ts = Some ''2024-01-03T10:00:00.000Z'', k_ticker = Some ''NQ'',
        k_side = Some ''Short'', k_type = Some ''Futures'', k_qty = Some 2, k_pnl = Some 196,
        k_change = Some ''Filled''\<rparr>
     = Inr ''2024-01-03t10:00:00.000z|nq|short|futures|2.0000|196.0000|filled'' \<and>
   buildTradeKey samplePlatform (payloadKeyArg (buildPayload ''user'' ''acct'' ''Tradovate'' 0
       (sampleTrade (Some ''2024-01-03T10:00:00.000Z'') ''Short'' (Some 2) (Some 196))))
     = Inr ''2024-01-03t10:00:00.000z|nq|short|futures|2.0000|196.0000|'' \<and>
   dedupRows samplePlatform (buildPayload ''user'' ''acct'' ''Tradovate'' 0) {}
       [sampleTrade (Some ''2024-01-03T10:00:00.000Z'') ''Short'' (Some 2) (Some 196),
        sampleTrade (Some ''2024-01-03T10:00:00.000Z'') ''Short'' (Some 2) (Some 196)]
     = Inr ([buildPayload ''user'' ''acct'' ''Tradovate'' 0
               (sampleTrade (Some ''2024-01-03T10:00:00.000Z'') ''Short'' (Some 2) (Some 196))],
            {''2024-01-03t10:00:00.000z|nq|short|futures|2.0000|196.0000|''}) \<and>
   dedupRows samplePlatform (buildPayload ''user'' ''acct'' ''Tradovate'' 0)
       {''2024-01-03t10:00:00.000z|nq|short|futures|2.0000|196.0000|''}
       [sampleTrade (Some ''2024-01-03T10:00:00.000Z'') ''Short'' (Some 2) (Some 196),
        sampleTrade (Some ''2024-01-03T10:00:00.000Z'') ''Short'' (Some 2) (Some 196)]
     = Inr ([], {''2024-01-03t10:00:00.000z|nq|short|futures|2.0000|196.0000|''}) \<and>
   handleImport samplePlatform ''user'' ''acct'' ''Tradovate'' 0 [] []
       [sampleTrade (Some ''2024-01-03T10:00:00.000Z'') ''Short'' (Some 2) (Some 196)]
     = InsertRows [buildPayload ''user'' ''acct'' ''Tradovate'' 0
         (sampleTrade (Some ''2024-01-03T10:00:00.000Z'') ''Short'' (Some 2) (Some 196))] \<and>
   handleImport samplePlatform ''user'' ''acct'' ''Tradovate'' 0 []
       ([] @ map payloadKeyArg [buildPayload ''user'' ''acct'' ''Tradovate'' 0
         (sampleTrade (Some ''2024-01-03T10:00:00.000Z'') ''Short'' (Some 2) (Some 196))])
       [sampleTrade (Some ''2024-01-03T10:00:00.000Z'') ''Short'' (Some 2) (Some 196)]
     = AllTradesExist"
proof -
  let ?t = "sampleTrade (Some ''2024-01-03T10:00:00.000Z'') ''Short'' (Some 2) (Some 196)"
  let ?mk = "buildPayload ''user'' ''acct'' ''Tradovate'' 0"
  let ?k = "''2024-01-03t10:00:00.000z|nq|short|futures|2.0000|196.0000|''"
  let ?arg = "\<lparr>k_entry_ts = Some ''2024-01-03T10:00:00.000Z'', k_ticker = Some ''NQ'',
        k_side = Some ''Short'', k_type = Some ''Futures'', k_qty = Some 2, k_pnl = Some 196,
        k_change = Some ''Filled''\<rparr>"
  note w0 = dedup_gate_idempotent[where pf = samplePlatform and t = ?arg
      and e = "''2024-01-03T10:00:00.000Z''" and ms = 1704276000000, THEN conjunct1]
  have "k_entry_ts ?arg = Some ''2024-01-03T10:00:00.000Z'' \<and> ''2024-01-03T10:00:00.000Z'' \<noteq> [] \<and>
      dateParse samplePlatform ''2024-01-03T10:00:00.000Z'' = Some 1704276000000"
    by (simp add: samplePlatform_def)
  from w0[rule_format, OF this]
  have key: "buildTradeKey samplePlatform ?arg
      = Inr ''2024-01-03t10:00:00.000z|nq|short|futures|2.0000|196.0000|filled''"
    by (simp add: samplePlatform_def normalizeString_def normalizeNumber_def
        toLowerCase_def lowerChar_def upperChars_def lowerChars_def)
  note w1 = dedup_gate_idempotent[where pf = samplePlatform and mk = ?mk and r = ?t and key = ?k
      and keys = "{}" and rs = "[?t]", THEN conjunct2, THEN conjunct2, THEN conjunct1]
  from w1[rule_format, OF sample_key]
  have "dedupRows samplePlatform ?mk {} [?t, ?t] =
      (case dedupRows samplePlatform ?mk {?k} [?t] of
         Inl err \<Rightarrow> Inl err | Inr (rows, ks) \<Rightarrow> Inr (?mk ?t # rows, ks))"
    by simp
  then have d: "dedupRows samplePlatform ?mk {} [?t, ?t] = Inr ([?mk ?t], {?k})"
    by (simp add: sample_key)
  note w2 = dedup_gate_idempotent[where pf = samplePlatform and mk = ?mk and keys = "{}"
      and rs = "[?t, ?t]" and rows = "[?mk ?t]" and keys' = "{?k}",
      THEN conjunct2, THEN conjunct2, THEN conjunct2, THEN conjunct1]
  from w2[rule_format, OF d]
  have "\<forall>keys''. {?k} \<subseteq> keys'' \<longrightarrow>
      dedupRows samplePlatform ?mk keys'' [?t, ?t] = Inr ([], keys'')"
    by (elim conjE)
  from this[rule_format, of "{?k}"]
  have again: "dedupRows samplePlatform ?mk {?k} [?t, ?t] = Inr ([], {?k})"
    by simp
  note w3 = dedup_gate_idempotent[where pf = samplePlatform and rows = "[?mk ?t]"
      and u = "''user''" and a = "''acct''" and b = "''Tradovate''" and f = 0 and d = "[]"
      and existing = "[]" and parsed = "[?t]",
      THEN conjunct2, THEN conjunct2, THEN conjunct2, THEN conjunct2]
  from w3[rule_format, OF sample_import]
  have second: "handleImport samplePlatform ''user'' ''acct'' ''Tradovate'' 0 []
       ([] @ map payloadKeyArg [?mk ?t]) [?t] = AllTradesExist" .
  show ?thesis
    by (intro conjI key sample_key d again sample_import second)
qed

text \<open>
  The claim as it is stated fixes only the statement, the account and the broker of the
  second import. The key holds the PnL after the fee override, and the cutoff date decides
  which rows reach the gate. A statement imported without fee override and imported again
  with a fee override of 1.5 has its row inserted a second time, with the PnL 193 instead
  of 196; a statement imported with the cutoff 2024-01-02 and imported again without cutoff
  has the row of 2024-01-01 inserted.
\<close>

theorem reimport_other_settings_counterexample:
  "handleImport samplePlatform ''user'' ''acct'' ''Tradovate'' 0 [] []
       [sampleTrade (Some ''2024-01-03T10:00:00.000Z'') ''Short'' (Some 2) (Some 196)]
     = InsertRows [buildPayload ''user'' ''acct'' ''Tradovate'' 0
         (sampleTrade (Some ''2024-01-03T10:00:00.000Z'') ''Short'' (Some 2) (Some 196))] \<and>
   handleImport samplePlatform ''user'' ''acct'' ''Tradovate'' (3 / 2) []
       (map payloadKeyArg [buildPayload ''user'' ''acct'' ''Tradovate'' 0
         (sampleTrade (Some ''2024-01-03T10:00:00.000Z'') ''Short'' (Some 2) (Some 196))])
       [sampleTrade (Some ''2024-01-03T10:00:00.000Z'') ''Short'' (Some 2) (Some 196)]
     = InsertRows [buildPayload ''user'' ''acct'' ''Tradovate'' (3 / 2)
         (sampleTrade (Some ''2024-01-03T10:00:00.000Z'') ''Short'' (Some 2) (Some 196))] \<and>
   handleImport samplePlatform ''user'' ''acct'' ''Tradovate'' 0 ''2024-01-02'' []
       [sampleTrade (Some ''2024-01-01T10:00:00.000Z'') ''Long'' (Some 2) (Some 0),
        sampleTrade (Some ''2024-01-03T10:00:00.000Z'') ''Short'' (Some 2) (Some 196)]
     = InsertRows [buildPayload ''user'' ''acct'' ''Tradovate'' 0
         (sampleTrade (Some ''2024-01-03T10:00:00.000Z'') ''Short'' (Some 2) (Some 196))] \<and>
   handleImport samplePlatform ''user'' ''acct'' ''Tradovate'' 0 []
       (map payloadKeyArg [buildPayload ''user'' ''acct'' ''Tradovate'' 0
         (sampleTrade (Some ''2024-01-03T10:00:00.000Z'') ''Short'' (Some 2) (Some 196))])
       [sampleTrade (Some ''2024-01-01T10:00:00.000Z'') ''Long'' (Some 2) (Some 0),
        sampleTrade (Some ''2024-01-03T10:00:00.000Z'') ''Short'' (Some 2) (Some 196)]
     = InsertRows [buildPayload ''user'' ''acct'' ''Tradovate'' 0
         (sampleTrade (Some ''2024-01-01T10:00:00.000Z'') ''Long'' (Some 2) (Some 0))]"
proof -
  let ?t1 = "sampleTrade (Some ''2024-01-01T10:00:00.000Z'') ''Long'' (Some 2) (Some 0)"
  let ?t3 = "sampleTrade (Some ''2024-01-03T10:00:00.000Z'') ''Short'' (Some 2) (Some 196)"
  let ?mk = "buildPayload ''user'' ''acct'' ''Tradovate''"
  let ?k = "''2024-01-03t10:00:00.000z|nq|short|futures|2.0000|196.0000|''"
  have cut: "filterByDate samplePlatform ''2024-01-02'' [?t1, ?t3] = [?t3]"
    by (simp add: filterByDate_def keepByDate_def samplePlatform_def sampleTrade_def)
  have nocut: "filterByDate samplePlatform [] xs = xs" for xs
    by (simp add: filterByDate_def)
  have seed: "existingKeysOf samplePlatform (map payloadKeyArg [?mk 0 ?t3]) = Inr {?k}"
    by (simp add: sample_key)
  have d0: "dedupRows samplePlatform (?mk 0) {} [?t3] = Inr ([?mk 0 ?t3], {?k})"
    by (simp add: sample_key Let_def)
  have d1: "dedupRows samplePlatform (?mk (3 / 2)) {?k} [?t3] =
      Inr ([?mk (3 / 2) ?t3],
           {''2024-01-03t10:00:00.000z|nq|short|futures|2.0000|193.0000|'', ?k})"
    by (simp add: sample_key_fee Let_def)
  have d2: "dedupRows samplePlatform (?mk 0) {?k} [?t1, ?t3] =
      Inr ([?mk 0 ?t1],
           {''2024-01-01t10:00:00.000z|nq|long|futures|2.0000|0.0000|'', ?k})"
    by (simp add: sample_key sample_key_first Let_def)
  have a: "handleImport samplePlatform ''user'' ''acct'' ''Tradovate'' 0 [] [] [?t3]
      = InsertRows [?mk 0 ?t3]"
    by (rule sample_import)
  have b: "handleImport samplePlatform ''user'' ''acct'' ''Tradovate'' (3 / 2) []
      (map payloadKeyArg [?mk 0 ?t3]) [?t3] = InsertRows [?mk (3 / 2) ?t3]"
    by (rule handleImport_inserts[OF _ nocut _ seed d1]) simp_all
  have c: "handleImport samplePlatform ''user'' ''acct'' ''Tradovate'' 0 ''2024-01-02'' []
      [?t1, ?t3] = InsertRows [?mk 0 ?t3]"
    by (rule handleImport_inserts[OF _ cut _ _ d0]) simp_all
  have d: "handleImport samplePlatform ''user'' ''acct'' ''Tradovate'' 0 []
      (map payloadKeyArg [?mk 0 ?t3]) [?t1, ?t3] = InsertRows [?mk 0 ?t1]"
    by (rule handleImport_inserts[OF _ nocut _ seed d2]) simp_all
  from a b c d show ?thesis by blast
qed


end
